theory Spec2Isabelle
  imports Main
begin

section \<open>The calendar interchange subsystem of unifyer\<close>

text \<open>
  A shallow embedding of the iCalendar import and subscription code of
  \<^verbatim>\<open>src/pages/studio/tabs/CalendarTab.tsx\<close> (the subscription-aware version of the
  calendar tab: \<^verbatim>\<open>parseICalContent\<close>, \<^verbatim>\<open>syncSubscription\<close>, \<^verbatim>\<open>deleteSubscription\<close>,
  \<^verbatim>\<open>getEvents\<close>). The importer of \<^verbatim>\<open>src/shared/services/calendarService.ts\<close> has the
  same loop and the same date decoder; only its unescaping differs and is modelled
  beside the other. The date decoders of the earlier version of the tab and of the
  basic parser in \<^verbatim>\<open>src/unnamed/part_005\<close> are modelled beside the decoder as well.

  A JavaScript string is modelled as a \<^typ>\<open>string\<close>: a list of code units, here
  restricted to one byte each. Every string the parser compares against is ASCII.
\<close>

subsection \<open>String primitives of the host language\<close>

abbreviation CR :: char where "CR \<equiv> CHR 0x0D"
abbreviation LF :: char where "LF \<equiv> CHR 0x0A"
abbreviation TAB :: char where "TAB \<equiv> CHR 0x09"
abbreviation SPACE :: char where "SPACE \<equiv> CHR 0x20"
abbreviation BACKSLASH :: char where "BACKSLASH \<equiv> CHR 0x5C"

text \<open>\<^verbatim>\<open>s.startsWith(p)\<close>.\<close>

fun startsWith :: "string \<Rightarrow> string \<Rightarrow> bool" where
  "startsWith s [] = True"
| "startsWith [] (p # ps) = False"
| "startsWith (c # cs) (p # ps) = (c = p \<and> startsWith cs ps)"

text \<open>\<^verbatim>\<open>s.endsWith(p)\<close>.\<close>

definition endsWith :: "string \<Rightarrow> string \<Rightarrow> bool" where
  "endsWith s p = startsWith (rev s) (rev p)"

text \<open>\<^verbatim>\<open>s.includes(p)\<close>: \<open>p\<close> occurs somewhere in \<open>s\<close>.\<close>

fun includes_str :: "string \<Rightarrow> string \<Rightarrow> bool" where
  "includes_str [] p = (p = [])"
| "includes_str (c # cs) p = (startsWith (c # cs) p \<or> includes_str cs p)"

text \<open>
  \<^verbatim>\<open>s.substring(a, b)\<close>: both indices are clamped to the length of the string and
  swapped when \<open>a > b\<close>; \<^verbatim>\<open>s.substring(a)\<close> runs to the end.
\<close>

definition substring :: "string \<Rightarrow> nat \<Rightarrow> nat \<Rightarrow> string" where
  "substring s a b = take (max a b - min a b) (drop (min a b) s)"

definition substring_from :: "string \<Rightarrow> nat \<Rightarrow> string" where
  "substring_from s a = drop a s"

text \<open>\<^verbatim>\<open>s.indexOf(c)\<close> for a one-character needle; \<open>None\<close> stands for \<open>-1\<close>.\<close>

fun indexOf :: "string \<Rightarrow> char \<Rightarrow> nat option" where
  "indexOf [] c = None"
| "indexOf (x # xs) c = (if x = c then Some 0 else map_option Suc (indexOf xs c))"

text \<open>
  \<^verbatim>\<open>s.split(c)\<close> for a one-character separator. The first argument is the piece
  collected so far; the result is never empty (\<^verbatim>\<open>"".split(";")\<close> is \<^verbatim>\<open>[""]\<close>).
\<close>

fun split_from :: "string \<Rightarrow> char \<Rightarrow> string \<Rightarrow> string list" where
  "split_from cur sep [] = [cur]"
| "split_from cur sep (x # xs) =
     (if x = sep then cur # split_from [] sep xs else split_from (cur @ [x]) sep xs)"

definition split :: "string \<Rightarrow> char \<Rightarrow> string list" where
  "split s sep = split_from [] sep s"

text \<open>
  \<^verbatim>\<open>content.split(/\r\n|\n|\r/)\<close>: at each position the alternatives are tried in
  order, so a carriage return followed by a line feed is one separator.
\<close>

fun split_lines_from :: "string \<Rightarrow> string \<Rightarrow> string list" where
  "split_lines_from cur [] = [cur]"
| "split_lines_from cur [c] =
     (if c = CR \<or> c = LF then [cur, []] else [cur @ [c]])"
| "split_lines_from cur (c # d # ds) =
     (if c = CR \<and> d = LF then cur # split_lines_from [] ds
      else if c = LF \<or> c = CR then cur # split_lines_from [] (d # ds)
      else split_lines_from (cur @ [c]) (d # ds))"

definition split_lines :: "string \<Rightarrow> string list" where
  "split_lines content = split_lines_from [] content"

subsection \<open>Text unfolder\<close>

text \<open>
  The head of the parser's loop (\<^verbatim>\<open>parseICalContent\<close>, lines 1070 to 1077):
  \<^verbatim>\<open>
  for (let i = 0; i < lines.length; i++) {
    let line = lines[i];
    while (i + 1 < lines.length &&
           (lines[i + 1].startsWith(' ') || lines[i + 1].startsWith('\t'))) {
      i++;
      line += lines[i].substring(1);
    }
    ... the body sees `line` ...
  }
  \<close>
  The body never reads \<open>lines\<close> or \<open>i\<close>, so the loop is the body iterated over the
  logical lines computed here. \<open>unfold_from line rest\<close> is the inner loop with the
  logical line collected so far and the physical lines not yet consumed.
\<close>

definition is_continuation :: "string \<Rightarrow> bool" where
  "is_continuation l = (startsWith l [SPACE] \<or> startsWith l [TAB])"

fun unfold_from :: "string \<Rightarrow> string list \<Rightarrow> string list" where
  "unfold_from line [] = [line]"
| "unfold_from line (nxt # rest) =
     (if is_continuation nxt then unfold_from (line @ substring_from nxt 1) rest
      else line # unfold_from nxt rest)"

definition unfold_lines :: "string list \<Rightarrow> string list" where
  "unfold_lines lines = (case lines of [] \<Rightarrow> [] | l # rest \<Rightarrow> unfold_from l rest)"

definition unfold :: "string \<Rightarrow> string list" where
  "unfold content = unfold_lines (split_lines content)"

text \<open>
  The source never writes logical lines back to text. To feed the unfolder its own
  output, the logical lines are joined with line feeds.
\<close>

fun join_lines :: "string list \<Rightarrow> string" where
  "join_lines [] = []"
| "join_lines [l] = l"
| "join_lines (l # m # ls) = l @ LF # join_lines (m # ls)"

subsection \<open>Numbers and \<^verbatim>\<open>parseInt\<close>\<close>

text \<open>
  The numbers the decoder handles are integers read from at most four characters, or
  \<open>NaN\<close>. Negative zero is not distinguished from zero: it is falsy like zero and the
  date constructors treat both alike.
\<close>

datatype number = NaN | Num int

text \<open>
  \<^verbatim>\<open>parseInt(string)\<close> without a radix, after ECMAScript: leading white space is
  trimmed, one sign is read, a \<^verbatim>\<open>0x\<close> or \<^verbatim>\<open>0X\<close> prefix selects radix 16, the longest
  prefix of digits of the radix is the numeral, and no digit at all gives \<open>NaN\<close>.
  Whatever follows the digits is ignored.
\<close>

definition is_str_whitespace :: "char \<Rightarrow> bool" where
  "is_str_whitespace c =
     (c = TAB \<or> c = LF \<or> c = CHR 0x0B \<or> c = CHR 0x0C \<or> c = CR \<or> c = SPACE \<or> c = CHR 0xA0)"

definition is_decimal_digit :: "char \<Rightarrow> bool" where
  "is_decimal_digit c = (48 \<le> (of_char c :: nat) \<and> (of_char c :: nat) \<le> 57)"

definition is_radix_digit :: "nat \<Rightarrow> char \<Rightarrow> bool" where
  "is_radix_digit r c =
     (is_decimal_digit c \<or>
      (r = 16 \<and> ((97 \<le> (of_char c :: nat) \<and> (of_char c :: nat) \<le> 102) \<or>
                 (65 \<le> (of_char c :: nat) \<and> (of_char c :: nat) \<le> 70))))"

definition digit_value :: "char \<Rightarrow> nat" where
  "digit_value c =
     (if is_decimal_digit c then of_char c - 48
      else if 97 \<le> (of_char c :: nat) then of_char c - 87
      else of_char c - 55)"

definition numeral_value :: "nat \<Rightarrow> string \<Rightarrow> nat" where
  "numeral_value r z = foldl (\<lambda>acc c. acc * r + digit_value c) 0 z"

definition parseInt :: "string \<Rightarrow> number" where
  "parseInt input =
     (let s1 = dropWhile is_str_whitespace input;
          sign = (if startsWith s1 ''-'' then - 1 else 1 :: int);
          s2 = (if startsWith s1 ''+'' \<or> startsWith s1 ''-'' then drop 1 s1 else s1);
          hex = (startsWith s2 ''0x'' \<or> startsWith s2 ''0X'');
          r = (if hex then 16 else 10);
          s3 = (if hex then drop 2 s2 else s2);
          z = takeWhile (is_radix_digit r) s3
      in if z = [] then NaN else Num (sign * int (numeral_value r z)))"

text \<open>\<^verbatim>\<open>x - 1\<close> and \<^verbatim>\<open>x || 0\<close> on numbers.\<close>

fun minus_one :: "number \<Rightarrow> number" where
  "minus_one NaN = NaN"
| "minus_one (Num n) = Num (n - 1)"

fun or_zero :: "number \<Rightarrow> number" where
  "or_zero NaN = Num 0"
| "or_zero (Num n) = Num n"

subsection \<open>Dates\<close>

text \<open>
  A \<^verbatim>\<open>Date\<close> is modelled by the calendar fields of its time value and the zone
  they are read in: the fields in UTC for \<^verbatim>\<open>new Date(Date.UTC(y, m, d, h, mi, s))\<close>,
  and for \<^verbatim>\<open>new Date(y, m, d, h, mi, s)\<close> the fields of the local time the constructor
  was asked for. Both constructors give the invalid date when an argument is \<open>NaN\<close>,
  and both read a year from 0 to 99 as 1900 plus that year. The month is counted from
  zero.

  The constructors do not keep their arguments as they are. ECMAScript adds the time
  \<open>h * 3600 + mi * 60 + s\<close> seconds (\<^verbatim>\<open>MakeTime\<close>) to the start of the day that lies
  \<open>d - 1\<close> days after the first of month \<open>m mod 12\<close> of year \<open>y + m div 12\<close>
  (\<^verbatim>\<open>MakeDay\<close>), and the fields of a date are read back from that sum. So seconds
  beyond 59 are carried into the minutes, minutes into the hours, hours into the
  days, and a day of the month that the month does not have is counted on into the
  following months (or back into the preceding ones): 31 February is 3 March.
  \<open>civil_from y m d\<close> is the calendar date of day \<open>d\<close> of month \<open>m\<close> of year \<open>y\<close>, where
  \<open>d\<close> may be any integer. The calendar is the Gregorian one for all years, as in
  ECMAScript.

  The range check of a time value (\<^verbatim>\<open>TimeClip\<close>, about 273790 years around 1970) is
  not modelled: the decoders read every argument from at most four characters.
\<close>

record civil =
  year :: int
  month :: int
  day :: int
  hour :: int
  minute :: int
  second :: int

datatype jsdate = InvalidDate | LocalTime civil | UtcTime civil

definition leap_year :: "int \<Rightarrow> bool" where
  "leap_year y = (y mod 4 = 0 \<and> (y mod 100 \<noteq> 0 \<or> y mod 400 = 0))"

definition days_in_month :: "int \<Rightarrow> int \<Rightarrow> int" where
  "days_in_month y m =
     (if m = 1 then (if leap_year y then 29 else 28)
      else if m = 3 \<or> m = 5 \<or> m = 8 \<or> m = 10 then 30
      else 31)"

function civil_from :: "int \<Rightarrow> int \<Rightarrow> int \<Rightarrow> int \<times> int \<times> int" where
  "civil_from y m d =
     (if d < 1 then
        (if m = 0 then civil_from (y - 1) 11 (d + 31)
         else civil_from y (m - 1) (d + days_in_month y (m - 1)))
      else if days_in_month y m < d then
        (if m = 11 then civil_from (y + 1) 0 (d - 31)
         else civil_from y (m + 1) (d - days_in_month y m))
      else (y, m, d))"
  by pat_completeness auto
termination
  by (relation "measure (\<lambda>(y, m, d). if d < 1 then 32 + nat (1 - d) else nat d)")
     (auto simp: days_in_month_def)

fun date_fields :: "number \<Rightarrow> number \<Rightarrow> number \<Rightarrow> number \<Rightarrow> number \<Rightarrow> number \<Rightarrow> civil option" where
  "date_fields (Num y) (Num m) (Num d) (Num h) (Num mi) (Num s) =
     (let yr = (if 0 \<le> y \<and> y \<le> 99 then 1900 + y else y);
          t = h * 3600 + mi * 60 + s;
          (y', m', d') = civil_from (yr + m div 12) (m mod 12) (d + t div 86400)
      in Some \<lparr>year = y', month = m', day = d',
               hour = t mod 86400 div 3600, minute = t mod 3600 div 60, second = t mod 60\<rparr>)"
| "date_fields y m d h mi s = None"

definition new_Date :: "number \<Rightarrow> number \<Rightarrow> number \<Rightarrow> number \<Rightarrow> number \<Rightarrow> number \<Rightarrow> jsdate" where
  "new_Date y m d h mi s =
     (case date_fields y m d h mi s of None \<Rightarrow> InvalidDate | Some c \<Rightarrow> LocalTime c)"

definition new_Date_UTC :: "number \<Rightarrow> number \<Rightarrow> number \<Rightarrow> number \<Rightarrow> number \<Rightarrow> number \<Rightarrow> jsdate" where
  "new_Date_UTC y m d h mi s =
     (case date_fields y m d h mi s of None \<Rightarrow> InvalidDate | Some c \<Rightarrow> UtcTime c)"

text \<open>The instant \<^verbatim>\<open>new Date(null)\<close> and \<^verbatim>\<open>new Date(0)\<close> denote.\<close>

definition epoch :: jsdate where
  "epoch = UtcTime \<lparr>year = 1970, month = 0, day = 1, hour = 0, minute = 0, second = 0\<rparr>"

text \<open>
  What a date shows: the fields its getters return, in UTC for a date made from UTC
  fields, in local time for a date made from local fields. A local time that the
  zone of the host does not have (the hour skipped when daylight saving time begins)
  is moved by the host, so what a local date shows depends on the host: \<open>host\<close> maps the
  local time the constructor was asked for to the local time of the instant the host
  assigns to it (\<^verbatim>\<open>LocalTime(UTC(t))\<close> in ECMAScript), the same local time wherever the
  zone has it.
\<close>

fun shown :: "(civil \<Rightarrow> civil) \<Rightarrow> jsdate \<Rightarrow> civil option" where
  "shown host InvalidDate = None"
| "shown host (UtcTime c) = Some c"
| "shown host (LocalTime c) = Some (host c)"

subsection \<open>Date/time decoder\<close>

text \<open>
  \<^verbatim>\<open>parseDate\<close> of \<^verbatim>\<open>parseICalContent\<close> (lines 1101 to 1117):
  \<^verbatim>\<open>
  const parseDate = (val: string, parts: string[]): Date => {
    const isDateOnly = parts.some(p => p === 'VALUE=DATE');
    const year = parseInt(val.substring(0, 4));
    const month = parseInt(val.substring(4, 6)) - 1;
    const day = parseInt(val.substring(6, 8));
    if (isDateOnly) return new Date(year, month, day);
    const hour = parseInt(val.substring(9, 11)) || 0;
    const minute = parseInt(val.substring(11, 13)) || 0;
    const second = parseInt(val.substring(13, 15)) || 0;
    if (val.endsWith('Z')) {
      return new Date(Date.UTC(year, month, day, hour, minute, second));
    }
    return new Date(year, month, day, hour, minute, second);
  };
  \<close>
\<close>

definition parseDate :: "string \<Rightarrow> string list \<Rightarrow> jsdate" where
  "parseDate val parts =
     (let isDateOnly = list_ex (\<lambda>p. p = ''VALUE=DATE'') parts;
          year = parseInt (substring val 0 4);
          month = minus_one (parseInt (substring val 4 6));
          day = parseInt (substring val 6 8)
      in if isDateOnly then new_Date year month day (Num 0) (Num 0) (Num 0)
         else
           (let hour = or_zero (parseInt (substring val 9 11));
                minute = or_zero (parseInt (substring val 11 13));
                second = or_zero (parseInt (substring val 13 15))
            in if endsWith val ''Z'' then new_Date_UTC year month day hour minute second
               else new_Date year month day hour minute second))"

text \<open>
  \<^verbatim>\<open>parseICalDate\<close> of \<^verbatim>\<open>src/shared/services/calendarService.ts\<close> (lines 126 to 147)
  reads the three date fields in each branch of its test:
  \<^verbatim>\<open>
  const isDateOnly = keyParts.some(p => p === 'VALUE=DATE');
  if (isDateOnly) {
    const year = parseInt(value.substring(0, 4));
    const month = parseInt(value.substring(4, 6)) - 1;
    const day = parseInt(value.substring(6, 8));
    return new Date(year, month, day);
  } else {
    const year = ...; const month = ...; const day = ...;
    const hour = parseInt(value.substring(9, 11)) || 0;
    const minute = parseInt(value.substring(11, 13)) || 0;
    const second = parseInt(value.substring(13, 15)) || 0;
    if (value.endsWith('Z')) {
      return new Date(Date.UTC(year, month, day, hour, minute, second));
    }
    return new Date(year, month, day, hour, minute, second);
  }
  \<close>
\<close>

definition parseICalDate :: "string \<Rightarrow> string list \<Rightarrow> jsdate" where
  "parseICalDate val keyParts =
     (let isDateOnly = list_ex (\<lambda>p. p = ''VALUE=DATE'') keyParts
      in if isDateOnly then
           (let year = parseInt (substring val 0 4);
                month = minus_one (parseInt (substring val 4 6));
                day = parseInt (substring val 6 8)
            in new_Date year month day (Num 0) (Num 0) (Num 0))
         else
           (let year = parseInt (substring val 0 4);
                month = minus_one (parseInt (substring val 4 6));
                day = parseInt (substring val 6 8);
                hour = or_zero (parseInt (substring val 9 11));
                minute = or_zero (parseInt (substring val 11 13));
                second = or_zero (parseInt (substring val 13 15))
            in if endsWith val ''Z'' then new_Date_UTC year month day hour minute second
               else new_Date year month day hour minute second))"

text \<open>
  The file \<^verbatim>\<open>CalendarTab.tsx\<close> holds an earlier version of the tab as well. The
  \<^verbatim>\<open>parseDate\<close> of its \<^verbatim>\<open>importICalEvents\<close> (lines 105 to 116) reads neither the
  seconds nor the \<open>Z\<close>:
  \<^verbatim>\<open>
  const isDateOnly = parts.some(p => p === 'VALUE=DATE');
  const year = parseInt(val.substring(0, 4));
  const month = parseInt(val.substring(4, 6)) - 1;
  const day = parseInt(val.substring(6, 8));
  if (isDateOnly) return new Date(year, month, day);
  const hour = parseInt(val.substring(9, 11)) || 0;
  const minute = parseInt(val.substring(11, 13)) || 0;
  return new Date(year, month, day, hour, minute);
  \<close>
\<close>

definition parseDate_import :: "string \<Rightarrow> string list \<Rightarrow> jsdate" where
  "parseDate_import val parts =
     (let isDateOnly = list_ex (\<lambda>p. p = ''VALUE=DATE'') parts;
          year = parseInt (substring val 0 4);
          month = minus_one (parseInt (substring val 4 6));
          day = parseInt (substring val 6 8)
      in if isDateOnly then new_Date year month day (Num 0) (Num 0) (Num 0)
         else
           (let hour = or_zero (parseInt (substring val 9 11));
                minute = or_zero (parseInt (substring val 11 13))
            in new_Date year month day hour minute (Num 0)))"

text \<open>
  The \<^verbatim>\<open>parseDate\<close> of the basic parser \<^verbatim>\<open>parseICal\<close> (\<^verbatim>\<open>src/unnamed/part_005\<close>, lines 28
  to 36) looks for the date with a regular expression and reads every date that has
  a time as UTC:
  \<^verbatim>\<open>
  const match = str.match(/(\d{4})(\d{2})(\d{2})(T(\d{2})(\d{2})(\d{2})Z?)?/);
  if (!match) return new Date();
  const [_, y, m, d, __, hh, mm, ss] = match;
  if (hh) {
    return new Date(Date.UTC(parseInt(y), parseInt(m) - 1, parseInt(d),
                             parseInt(hh), parseInt(mm), parseInt(ss)));
  }
  return new Date(parseInt(y), parseInt(m) - 1, parseInt(d));
  \<close>
  The match begins at the leftmost position where eight digits stand; the group with
  the time is taken when \<open>T\<close> and six digits follow them. \<open>find_digits n s\<close> is the rest
  of \<open>s\<close> from that position. \<open>now\<close> is the value of \<^verbatim>\<open>new Date()\<close>. (The caller can
  pass \<^verbatim>\<open>undefined\<close>, on which \<^verbatim>\<open>str.match\<close> throws; the model takes a string.)
\<close>

definition digits_ahead :: "nat \<Rightarrow> string \<Rightarrow> bool" where
  "digits_ahead n s = (n \<le> length s \<and> list_all is_decimal_digit (take n s))"

fun find_digits :: "nat \<Rightarrow> string \<Rightarrow> string option" where
  "find_digits n [] = (if n = 0 then Some [] else None)"
| "find_digits n (c # cs) =
     (if digits_ahead n (c # cs) then Some (c # cs) else find_digits n cs)"

definition parseDate_basic :: "jsdate \<Rightarrow> string \<Rightarrow> jsdate" where
  "parseDate_basic now str =
     (case find_digits 8 str of
        None \<Rightarrow> now
      | Some s \<Rightarrow>
          (let y = substring s 0 4; m = substring s 4 6; d = substring s 6 8
           in if startsWith (substring_from s 8) ''T'' \<and> digits_ahead 6 (substring_from s 9)
              then new_Date_UTC (parseInt y) (minus_one (parseInt m)) (parseInt d)
                     (parseInt (substring s 9 11)) (parseInt (substring s 11 13))
                     (parseInt (substring s 13 15))
              else new_Date (parseInt y) (minus_one (parseInt m)) (parseInt d)
                     (Num 0) (Num 0) (Num 0)))"

subsection \<open>Field unescaper\<close>

text \<open>
  \<^verbatim>\<open>s.replace(/\\x/g, r)\<close> for a two-character pattern: the occurrences are found
  from left to right without overlap and each is replaced by the one character \<open>r\<close>.
\<close>

fun replace_pair :: "char \<Rightarrow> char \<Rightarrow> char \<Rightarrow> string \<Rightarrow> string" where
  "replace_pair a b r [] = []"
| "replace_pair a b r [c] = [c]"
| "replace_pair a b r (c # d # ds) =
     (if c = a \<and> d = b then r # replace_pair a b r ds
      else c # replace_pair a b r (d # ds))"

text \<open>
  \<^verbatim>\<open>unescapeValue\<close> (lines 1119 to 1125): four global replacements, one after the
  other, each over the output of the one before:
  \<^verbatim>\<open>
  return val.replace(/\\n/g, '\n').replace(/\\,/g, ',')
            .replace(/\\;/g, ';').replace(/\\\\/g, '\\');
  \<close>
\<close>

definition unescapeValue :: "string \<Rightarrow> string" where
  "unescapeValue val =
     replace_pair BACKSLASH BACKSLASH BACKSLASH
       (replace_pair BACKSLASH (CHR '';'') (CHR '';'')
         (replace_pair BACKSLASH (CHR '','') (CHR '','')
           (replace_pair BACKSLASH (CHR ''n'') LF val)))"

text \<open>
  The unescaper as the specification words it: one pass from left to right that
  replaces the four escape sequences and never looks again at a character it has
  written.
\<close>

fun spec_unescape :: "string \<Rightarrow> string" where
  "spec_unescape [] = []"
| "spec_unescape [c] = [c]"
| "spec_unescape (c # d # ds) =
     (if c = BACKSLASH \<and> d = BACKSLASH then BACKSLASH # spec_unescape ds
      else if c = BACKSLASH \<and> d = CHR '','' then CHR '','' # spec_unescape ds
      else if c = BACKSLASH \<and> d = CHR '';'' then CHR '';'' # spec_unescape ds
      else if c = BACKSLASH \<and> d = CHR ''n'' then LF # spec_unescape ds
      else c # spec_unescape (d # ds))"

subsection \<open>Events\<close>

text \<open>
  \<^verbatim>\<open>CalendarEvent\<close> and \<^verbatim>\<open>EventFormData = Omit<CalendarEvent, 'id'>\<close> (lines 917 to
  946). The parser fills a \<^verbatim>\<open>Partial<EventFormData>\<close> and casts it to
  \<^verbatim>\<open>EventFormData\<close> when it emits it, so the optional and the required fields are all
  modelled as options: \<open>None\<close> is \<^verbatim>\<open>undefined\<close>. Only \<open>etype\<close> (the field \<^verbatim>\<open>type\<close>) is
  set wherever a record is created.
\<close>

datatype event_type = Exam | Project | Assignment | Personal | Imported | Subscription

record event_data =
  title :: "string option"
  description :: "string option"
  startDate :: "jsdate option"
  endDate :: "jsdate option"
  allDay :: "bool option"
  etype :: event_type
  color :: "string option"
  courseId :: "string option"
  courseName :: "string option"
  location :: "string option"
  subscriptionUrl :: "string option"

record event = event_data +
  event_id :: string

text \<open>Truthiness of an optional string: defined and not empty.\<close>

fun truthy :: "string option \<Rightarrow> bool" where
  "truthy None = False"
| "truthy (Some s) = (s \<noteq> [])"

text \<open>\<^verbatim>\<open>a || b\<close> on an optional string and a string.\<close>

fun or_else :: "string option \<Rightarrow> string \<Rightarrow> string" where
  "or_else None b = b"
| "or_else (Some a) b = (if a = [] then b else a)"

subsection \<open>Event block parser\<close>

text \<open>
  The draft that \<^verbatim>\<open>BEGIN:VEVENT\<close> creates (lines 1081 to 1085):
  \<^verbatim>\<open>
  currentEvent = {
    type: subscriptionId ? 'subscription' : 'imported',
    color: color || '#6366f1',
    subscriptionUrl: subscriptionId,
  };
  \<close>
\<close>

definition new_draft :: "string option \<Rightarrow> string option \<Rightarrow> event_data" where
  "new_draft subscriptionId col =
     \<lparr>title = None, description = None, startDate = None, endDate = None, allDay = None,
      etype = (if truthy subscriptionId then Subscription else Imported),
      color = Some (or_else col ''#6366f1''),
      courseId = None, courseName = None, location = None,
      subscriptionUrl = subscriptionId\<rparr>"

text \<open>
  The \<^verbatim>\<open>switch (mainKey)\<close> of lines 1127 to 1144, with \<^verbatim>\<open>mainKey = keyParts[0]\<close>.
  \<open>split\<close> never returns the empty list, so the first case is never taken.
\<close>

definition set_property :: "string list \<Rightarrow> string \<Rightarrow> event_data \<Rightarrow> event_data" where
  "set_property keyParts val ev =
     (case keyParts of
        [] \<Rightarrow> ev
      | mainKey # _ \<Rightarrow>
          if mainKey = ''SUMMARY'' then ev\<lparr>title := Some (unescapeValue val)\<rparr>
          else if mainKey = ''DESCRIPTION'' then ev\<lparr>description := Some (unescapeValue val)\<rparr>
          else if mainKey = ''DTSTART'' then
            ev\<lparr>startDate := Some (parseDate val keyParts),
               allDay := Some (list_ex (\<lambda>p. p = ''VALUE=DATE'') keyParts)\<rparr>
          else if mainKey = ''DTEND'' then ev\<lparr>endDate := Some (parseDate val keyParts)\<rparr>
          else if mainKey = ''LOCATION'' then ev\<lparr>location := Some (unescapeValue val)\<rparr>
          else ev)"

text \<open>
  Lines 1093 to 1099: a line is cut at its first colon, the part before it is split
  at semicolons; a line with no colon is skipped.
\<close>

definition property_line :: "string \<Rightarrow> event_data \<Rightarrow> event_data" where
  "property_line line ev =
     (case indexOf line (CHR '':'') of
        None \<Rightarrow> ev
      | Some colonIndex \<Rightarrow>
          (let key = substring line 0 colonIndex;
               val = substring_from line (colonIndex + 1);
               keyParts = split key (CHR '';'')
           in set_property keyParts val ev))"

text \<open>
  The state of the loop and its body on one logical line (lines 1079 to 1145):
  \<^verbatim>\<open>
  if (line === 'BEGIN:VEVENT') {
    inEvent = true;
    currentEvent = { ... };
  } else if (line === 'END:VEVENT' && currentEvent) {
    inEvent = false;
    if (currentEvent.title && currentEvent.startDate) {
      events.push(currentEvent as EventFormData);
    }
    currentEvent = null;
  } else if (inEvent && currentEvent) {
    ... property line ...
  }
  \<close>
  A \<^verbatim>\<open>Date\<close> object is truthy even when it is the invalid date, so the test on
  \<^verbatim>\<open>startDate\<close> asks only whether the field was set.
\<close>

record parser_state =
  events :: "event_data list"
  currentEvent :: "event_data option"
  inEvent :: bool

definition process_line :: "string option \<Rightarrow> string option \<Rightarrow> parser_state \<Rightarrow> string \<Rightarrow> parser_state" where
  "process_line subscriptionId col st line =
     (if line = ''BEGIN:VEVENT'' then
        st\<lparr>inEvent := True, currentEvent := Some (new_draft subscriptionId col)\<rparr>
      else
        (case currentEvent st of
           None \<Rightarrow> st
         | Some cur \<Rightarrow>
             if line = ''END:VEVENT'' then
               \<lparr>events = (if truthy (title cur) \<and> startDate cur \<noteq> None
                           then events st @ [cur] else events st),
                currentEvent = None, inEvent = False\<rparr>
             else if inEvent st then st\<lparr>currentEvent := Some (property_line line cur)\<rparr>
             else st))"

definition initial_state :: parser_state where
  "initial_state = \<lparr>events = [], currentEvent = None, inEvent = False\<rparr>"

definition parse_lines :: "string option \<Rightarrow> string option \<Rightarrow> parser_state \<Rightarrow> string list \<Rightarrow> parser_state" where
  "parse_lines subscriptionId col st ls = foldl (process_line subscriptionId col) st ls"

definition parseICalContent :: "string \<Rightarrow> string option \<Rightarrow> string option \<Rightarrow> event_data list" where
  "parseICalContent content subscriptionId col =
     events (parse_lines subscriptionId col initial_state (unfold content))"

subsection \<open>Event store\<close>

text \<open>
  Values a function of the source can throw.
\<close>

datatype js_error =
    SyntaxError
  | TypeError
  | FetchFailed nat
  | InvalidFormat
  | OtherError string

text \<open>
  What \<^verbatim>\<open>localStorage.getItem(STORAGE_KEY)\<close> holds, up to what \<^verbatim>\<open>JSON.parse\<close> makes
  of it: no item, the empty string, a text that \<^verbatim>\<open>JSON.parse\<close> rejects, a JSON value
  that is not an array, or an array. An element of the array is either one on which
  the callback of \<^verbatim>\<open>events.map\<close> throws (\<^verbatim>\<open>null\<close>, whose property \<^verbatim>\<open>startDate\<close> cannot be
  read, or an object whose date field cannot be converted to a primitive), or an
  object with the fields \<^verbatim>\<open>saveEvents\<close> writes. In such an object a date field is
  absent (\<open>None\<close>), \<^verbatim>\<open>null\<close> (\<open>Some InvalidDate\<close>: \<^verbatim>\<open>JSON.stringify\<close> writes the invalid
  date as \<^verbatim>\<open>null\<close>) or the ISO text of an instant.
\<close>

datatype elem = Throwing_elem | Event_elem event

datatype stored_value = Absent | Empty_text | Malformed_text | Not_array | Array "elem list"

text \<open>
  The callback of \<^verbatim>\<open>events.map\<close> in \<^verbatim>\<open>getEvents\<close> (lines 959 to 963):
  \<^verbatim>\<open>
  ({ ...event,
     startDate: new Date(event.startDate),
     endDate: event.endDate ? new Date(event.endDate) : undefined })
  \<close>
  \<^verbatim>\<open>new Date(undefined)\<close> is the invalid date, \<^verbatim>\<open>new Date(null)\<close> is the epoch, and
  \<^verbatim>\<open>null\<close> is falsy.
\<close>

definition revive :: "'a event_data_scheme \<Rightarrow> 'a event_data_scheme" where
  "revive ev =
     ev\<lparr>startDate :=
          Some (case startDate ev of
                  None \<Rightarrow> InvalidDate
                | Some InvalidDate \<Rightarrow> epoch
                | Some d \<Rightarrow> d),
        endDate :=
          (case endDate ev of
             None \<Rightarrow> None
           | Some InvalidDate \<Rightarrow> None
           | Some d \<Rightarrow> Some d)\<rparr>"

fun revive_all :: "elem list \<Rightarrow> js_error + event list" where
  "revive_all [] = Inr []"
| "revive_all (Throwing_elem # rest) = Inl TypeError"
| "revive_all (Event_elem ev # rest) =
     (case revive_all rest of Inl err \<Rightarrow> Inl err | Inr evs \<Rightarrow> Inr (revive ev # evs))"

text \<open>
  \<^verbatim>\<open>getEvents\<close> (lines 954 to 967). \<open>getEvents_try\<close> is the body of its \<^verbatim>\<open>try\<close> block,
  \<open>getEvents\<close> the function with its \<^verbatim>\<open>catch { return []; }\<close>:
  \<^verbatim>\<open>
  try {
    const stored = localStorage.getItem(STORAGE_KEY);
    if (!stored) return [];
    const events = JSON.parse(stored);
    return events.map((event: any) => ({ ... }));
  } catch {
    return [];
  }
  \<close>
\<close>

fun getEvents_try :: "stored_value \<Rightarrow> js_error + event list" where
  "getEvents_try Absent = Inr []"
| "getEvents_try Empty_text = Inr []"
| "getEvents_try Malformed_text = Inl SyntaxError"
| "getEvents_try Not_array = Inl TypeError"
| "getEvents_try (Array els) = revive_all els"

definition getEvents :: "stored_value \<Rightarrow> event list" where
  "getEvents stored = (case getEvents_try stored of Inl err \<Rightarrow> [] | Inr evs \<Rightarrow> evs)"

text \<open>
  \<^verbatim>\<open>saveEvents\<close> (lines 969 to 971) writes \<^verbatim>\<open>JSON.stringify(events)\<close>: the item then
  parses to the array of these events. A write that the browser refuses (quota) is
  not modelled.
\<close>

definition saveEvents :: "event list \<Rightarrow> stored_value" where
  "saveEvents evs = Array (map Event_elem evs)"

text \<open>
  \<^verbatim>\<open>CalendarSubscription\<close> (lines 932 to 939). The item under \<^verbatim>\<open>SUBSCRIPTIONS_KEY\<close> is
  modelled as the list it parses to, the empty list when there is none.
\<close>

record subscription =
  sub_id :: string
  sub_name :: string
  url :: string
  sub_color :: string
  lastSync :: "jsdate option"
  enabled :: bool

definition revive_subscription :: "subscription \<Rightarrow> subscription" where
  "revive_subscription sub =
     sub\<lparr>lastSync :=
           (case lastSync sub of
              None \<Rightarrow> None
            | Some InvalidDate \<Rightarrow> None
            | Some d \<Rightarrow> Some d)\<rparr>"

text \<open>
  The browser state the calendar code reads and writes: the two storage items, and
  how many identifiers \<^verbatim>\<open>addEvent\<close> has drawn. The identifier
  \<^verbatim>\<open>`event_${Date.now()}_${Math.random().toString(36).substr(2, 9)}`\<close> comes from the
  clock and the random generator; the model takes the sequence of identifiers as a
  function \<open>ids\<close> of the number of the draw.
\<close>

record app_state =
  stored_events :: stored_value
  stored_subscriptions :: "subscription list"
  ids_drawn :: nat

definition getSubscriptions :: "app_state \<Rightarrow> subscription list" where
  "getSubscriptions st = map revive_subscription (stored_subscriptions st)"

text \<open>
  \<^verbatim>\<open>addEvent\<close> (lines 973 to 982):
  \<^verbatim>\<open>
  const events = getEvents();
  const newEvent = { ...eventData, id: `event_...` };
  events.push(newEvent);
  saveEvents(events);
  return newEvent;
  \<close>
\<close>

definition addEvent :: "(nat \<Rightarrow> string) \<Rightarrow> event_data \<Rightarrow> app_state \<Rightarrow> event \<times> app_state" where
  "addEvent ids eventData st =
     (let evs = getEvents (stored_events st);
          newEvent = event_data.extend eventData (event.fields (ids (ids_drawn st)))
      in (newEvent,
          st\<lparr>stored_events := saveEvents (evs @ [newEvent]),
             ids_drawn := Suc (ids_drawn st)\<rparr>))"

text \<open>\<^verbatim>\<open>parsedEvents.map(e => addEvent(e))\<close>.\<close>

fun addEvents :: "(nat \<Rightarrow> string) \<Rightarrow> event_data list \<Rightarrow> app_state \<Rightarrow> event list \<times> app_state" where
  "addEvents ids [] st = ([], st)"
| "addEvents ids (d # ds) st =
     (let (ev, st1) = addEvent ids d st;
          (evs, st2) = addEvents ids ds st1
      in (ev # evs, st2))"

text \<open>
  \<^verbatim>\<open>deleteSubscription\<close> (lines 1030 to 1036):
  \<^verbatim>\<open>
  const subscriptions = getSubscriptions();
  saveSubscriptions(subscriptions.filter(s => s.id !== id));
  const events = getEvents();
  saveEvents(events.filter(e => e.subscriptionUrl !== id));
  \<close>
\<close>

definition deleteSubscription :: "string \<Rightarrow> app_state \<Rightarrow> app_state" where
  "deleteSubscription sid st =
     (let subscriptions = getSubscriptions st;
          st1 = st\<lparr>stored_subscriptions := filter (\<lambda>s. sub_id s \<noteq> sid) subscriptions\<rparr>;
          evs = getEvents (stored_events st1)
      in st1\<lparr>stored_events := saveEvents (filter (\<lambda>e. subscriptionUrl e \<noteq> Some sid) evs)\<rparr>)"

subsection \<open>Subscription sync\<close>

text \<open>
  The replace step of \<^verbatim>\<open>syncSubscription\<close> (lines 1179 to 1186), with the drafts that
  \<^verbatim>\<open>parseICalContent\<close> returned:
  \<^verbatim>\<open>
  const events = getEvents();
  const otherEvents = events.filter(e => e.subscriptionUrl !== subscription.id);
  saveEvents(otherEvents);
  const parsedEvents = parseICalContent(content, subscription.id, subscription.color);
  const newEvents = parsedEvents.map(e => addEvent(e));
  \<close>
\<close>

definition replaceSubscriptionEvents ::
    "(nat \<Rightarrow> string) \<Rightarrow> string \<Rightarrow> event_data list \<Rightarrow> app_state \<Rightarrow> event list \<times> app_state" where
  "replaceSubscriptionEvents ids sid parsedEvents st =
     (let evs = getEvents (stored_events st);
          otherEvents = filter (\<lambda>e. subscriptionUrl e \<noteq> Some sid) evs;
          st1 = st\<lparr>stored_events := saveEvents otherEvents\<rparr>
      in addEvents ids parsedEvents st1)"

text \<open>
  What \<^verbatim>\<open>await fetch(proxyUrl, ...)\<close> resolves to, as far as the code looks at it:
  \<^verbatim>\<open>response.ok\<close>, \<^verbatim>\<open>response.status\<close> and the outcome of \<^verbatim>\<open>await response.text()\<close>.
  A rejected promise is the error it carries.
\<close>

record response =
  ok :: bool
  status :: nat
  body_text :: "js_error + string"

text \<open>
  Lines 1189 to 1194: the first subscription with the identifier gets the time of
  the sync, and the list is written back only when there is one.
\<close>

fun stamp_lastSync :: "string \<Rightarrow> jsdate \<Rightarrow> subscription list \<Rightarrow> subscription list option" where
  "stamp_lastSync sid now [] = None"
| "stamp_lastSync sid now (s # ss) =
     (if sub_id s = sid then Some (s\<lparr>lastSync := Some now\<rparr> # ss)
      else map_option ((#) s) (stamp_lastSync sid now ss))"

text \<open>
  \<^verbatim>\<open>syncSubscription\<close> (lines 1157 to 1201). Its \<^verbatim>\<open>catch\<close> logs the error and throws it
  again, so a failure leaves the function with the state as it was when the error
  arose. \<open>fetched\<close> is the outcome of the network request, \<open>now\<close> the value of
  \<^verbatim>\<open>new Date()\<close> at the end of the sync.
\<close>

definition syncSubscription ::
    "(nat \<Rightarrow> string) \<Rightarrow> jsdate \<Rightarrow> js_error + response \<Rightarrow> subscription \<Rightarrow> app_state
       \<Rightarrow> (js_error + event list) \<times> app_state" where
  "syncSubscription ids now fetched sub st =
     (case fetched of
        Inl err \<Rightarrow> (Inl err, st)
      | Inr resp \<Rightarrow>
          if \<not> ok resp then (Inl (FetchFailed (status resp)), st)
          else
            (case body_text resp of
               Inl err \<Rightarrow> (Inl err, st)
             | Inr content \<Rightarrow>
                 if \<not> includes_str content ''BEGIN:VCALENDAR'' then (Inl InvalidFormat, st)
                 else
                   (let (newEvents, st1) =
                          replaceSubscriptionEvents ids (sub_id sub)
                            (parseICalContent content (Some (sub_id sub)) (Some (sub_color sub))) st;
                        st2 = (case stamp_lastSync (sub_id sub) now (getSubscriptions st1) of
                                 None \<Rightarrow> st1
                               | Some subs \<Rightarrow> st1\<lparr>stored_subscriptions := subs\<rparr>)
                    in (Inr newEvents, st2))))"

section \<open>Notions used in the statements\<close>

text \<open>The example document of the specification, its lines separated by line feeds.\<close>

definition example_document :: string where
  "example_document =
     ''BEGIN:VCALENDAR'' @ [LF] @
     ''BEGIN:VEVENT'' @ [LF] @
     ''SUMMARY:Midterm'' @ [BACKSLASH] @ '', Calc III'' @ [LF] @
     ''DTSTART;VALUE=DATE:20250522'' @ [LF] @
     ''LOCATION:Main Hall A'' @ [LF] @
     ''END:VEVENT'' @ [LF] @
     ''END:VCALENDAR''"

text \<open>
  An empty physical line directly followed by a continuation line. The logical line
  that starts at the empty line then begins with what the continuation line has
  after its first character.
\<close>

fun blank_then_continuation :: "string list \<Rightarrow> bool" where
  "blank_then_continuation [] = False"
| "blank_then_continuation [l] = False"
| "blank_then_continuation (l # n # rest) =
     ((l = [] \<and> is_continuation n) \<or> blank_then_continuation (n # rest))"

text \<open>A folded property line, and the text on which unfolding twice differs.\<close>

definition folded_sample :: string where
  "folded_sample = ''SUMMARY:Mid'' @ [CR, LF] @ '' term'' @ [LF]"

definition blank_fold_sample :: string where
  "blank_fold_sample = ''a'' @ [LF, LF] @ ''  c''"

text \<open>
  Date-time tokens as the specification writes them, \<^verbatim>\<open>YYYYMMDD"T"HHMMSS\<close>: the decimal
  digits of the six fields, padded with zeros, around the letter \<open>T\<close>.
\<close>

definition digit_char :: "nat \<Rightarrow> char" where
  "digit_char n = char_of (48 + n)"

definition two_digits :: "nat \<Rightarrow> string" where
  "two_digits n = [digit_char (n div 10), digit_char (n mod 10)]"

definition four_digits :: "nat \<Rightarrow> string" where
  "four_digits n =
     [digit_char (n div 1000), digit_char (n div 100 mod 10),
      digit_char (n div 10 mod 10), digit_char (n mod 10)]"

definition datetime_token :: "nat \<Rightarrow> nat \<Rightarrow> nat \<Rightarrow> nat \<Rightarrow> nat \<Rightarrow> nat \<Rightarrow> string" where
  "datetime_token y mo d h mi s =
     four_digits y @ two_digits mo @ two_digits d @ ''T'' @
     two_digits h @ two_digits mi @ two_digits s"

text \<open>
  The year the constructors make of the four digits, and the fields of a well-formed
  token: a date the calendar has, in that year, and a time of day.
\<close>

definition read_year :: "nat \<Rightarrow> int" where
  "read_year y = (if y \<le> 99 then 1900 + int y else int y)"

definition wall_clock :: "nat \<Rightarrow> nat \<Rightarrow> nat \<Rightarrow> nat \<Rightarrow> nat \<Rightarrow> nat \<Rightarrow> bool" where
  "wall_clock y mo d h mi s =
     (y \<le> 9999 \<and> 1 \<le> mo \<and> mo \<le> 12 \<and>
      1 \<le> d \<and> int d \<le> days_in_month (read_year y) (int mo - 1) \<and>
      h \<le> 23 \<and> mi \<le> 59 \<and> s \<le> 59)"

text \<open>
  A host whose zone skips the hour from 02:00 to 03:00 on 9 March 2025, as the zones
  of North America do, and moves a local time in that hour one hour on.
\<close>

definition spring_forward :: "civil \<Rightarrow> civil" where
  "spring_forward c =
     (if year c = 2025 \<and> month c = 2 \<and> day c = 9 \<and> hour c = 2 then c\<lparr>hour := 3\<rparr> else c)"



text \<open>The parameter list of a property that is not marked as a date without time.\<close>

definition timed :: "string list \<Rightarrow> bool" where
  "timed parts = (\<not> list_ex (\<lambda>p. p = ''VALUE=DATE'') parts)"

text \<open>
  Every event object of the stored array has a \<^verbatim>\<open>startDate\<close>, as the type
  \<^verbatim>\<open>CalendarEvent\<close> requires. (An object without one is read with the invalid date,
  written back as \<^verbatim>\<open>null\<close> and read again as the epoch.)
\<close>

fun has_startDate :: "elem \<Rightarrow> bool" where
  "has_startDate Throwing_elem = True"
| "has_startDate (Event_elem ev) = (startDate ev \<noteq> None)"

fun has_startDates :: "stored_value \<Rightarrow> bool" where
  "has_startDates (Array els) = list_all has_startDate els"
| "has_startDates stored = True"

text \<open>A draft as the parser emits it for the subscription \<open>sid\<close>.\<close>

definition subscription_draft :: "string \<Rightarrow> event_data \<Rightarrow> bool" where
  "subscription_draft sid d = (subscriptionUrl d = Some sid \<and> startDate d \<noteq> None)"

text \<open>Sample data for the store.\<close>

definition sample_draft :: "string \<Rightarrow> string option \<Rightarrow> event_data" where
  "sample_draft t sid =
     \<lparr>title = Some t, description = None,
      startDate = Some (LocalTime \<lparr>year = 2025, month = 4, day = 22,
                                   hour = 0, minute = 0, second = 0\<rparr>),
      endDate = None, allDay = Some True,
      etype = (if truthy sid then Subscription else Imported),
      color = Some ''#6366f1'', courseId = None, courseName = None, location = None,
      subscriptionUrl = sid\<rparr>"

definition sample_event :: "string \<Rightarrow> string \<Rightarrow> string option \<Rightarrow> event" where
  "sample_event i t sid = event_data.extend (sample_draft t sid) (event.fields i)"

definition sample_subscription :: subscription where
  "sample_subscription =
     \<lparr>sub_id = ''sub_1'', sub_name = ''Faculty'', url = ''https://example.org/cal.ics'',
      sub_color = ''#8b5cf6'', lastSync = None, enabled = True\<rparr>"

definition sample_state :: app_state where
  "sample_state =
     \<lparr>stored_events =
        saveEvents [sample_event ''event_a'' ''Own'' None,
                    sample_event ''event_b'' ''Lecture'' (Some ''sub_1''),
                    sample_event ''event_c'' ''Seminar'' (Some ''sub_2'')],
      stored_subscriptions = [sample_subscription], ids_drawn = 0\<rparr>"

definition sample_ids :: "nat \<Rightarrow> string" where
  "sample_ids n = ''event_'' @ replicate (Suc n) (CHR ''x'')"

text \<open>
  The grammar of a property line, \<^verbatim>\<open>NAME[;PARAM=VALUE...]:VALUE\<close>: the name before the
  first semicolon or colon and the value after the first colon, for a line that has
  a colon.
\<close>

definition property_of :: "string \<Rightarrow> (string \<times> string) option" where
  "property_of line =
     (case indexOf line (CHR '':'') of
        None \<Rightarrow> None
      | Some i \<Rightarrow>
          (case split (substring line 0 i) (CHR '';'') of
             [] \<Rightarrow> None
           | k # _ \<Rightarrow> Some (k, substring_from line (i + 1))))"

text \<open>The values of the property lines with a given name, in the order of the lines.\<close>

definition values_of :: "string \<Rightarrow> string list \<Rightarrow> string list" where
  "values_of key body =
     concat (map (\<lambda>line. case property_of line of
                           None \<Rightarrow> []
                         | Some (k, v) \<Rightarrow> if k = key then [v] else []) body)"

text \<open>
  The draft after the lines of a block, and what the block adds to the output: the
  draft when the last \<open>SUMMARY\<close> line of the block has a value that is not empty and
  the block has a \<open>DTSTART\<close> line, and nothing otherwise.
\<close>

definition block_draft :: "string option \<Rightarrow> string option \<Rightarrow> string list \<Rightarrow> event_data" where
  "block_draft subscriptionId col body =
     foldl (\<lambda>ev line. property_line line ev) (new_draft subscriptionId col) body"

definition block_events :: "string option \<Rightarrow> string option \<Rightarrow> string list \<Rightarrow> event_data list" where
  "block_events subscriptionId col body =
     (if values_of ''SUMMARY'' body \<noteq> [] \<and> last (values_of ''SUMMARY'' body) \<noteq> [] \<and>
         values_of ''DTSTART'' body \<noteq> []
      then [block_draft subscriptionId col body] else [])"

text \<open>A block with two \<open>SUMMARY\<close> lines, the second one empty.\<close>

definition twice_summarised :: string where
  "twice_summarised =
     ''BEGIN:VCALENDAR'' @ [LF] @
     ''BEGIN:VEVENT'' @ [LF] @
     ''SUMMARY:Exam'' @ [LF] @
     ''DTSTART:20250615T090000Z'' @ [LF] @
     ''SUMMARY:'' @ [LF] @
     ''END:VEVENT'' @ [LF] @
     ''END:VCALENDAR''"

text \<open>The lines between \<open>BEGIN:VEVENT\<close> and \<open>END:VEVENT\<close> in the example document.\<close>

definition example_block :: "string list" where
  "example_block =
     [''SUMMARY:Midterm'' @ [BACKSLASH] @ '', Calc III'',
      ''DTSTART;VALUE=DATE:20250522'',
      ''LOCATION:Main Hall A'']"

text \<open>
  The older importer of \<^verbatim>\<open>src/shared/services/calendarService.ts\<close> unescapes in its
  own way: for \<open>SUMMARY\<close> and \<open>DESCRIPTION\<close> (lines 98 and 101)
  \<^verbatim>\<open>value.replace(/\\,/g, ',').replace(/\\;/g, ';').replace(/\\n/g, '\n')\<close>,
  for \<open>LOCATION\<close> (line 111) \<^verbatim>\<open>value.replace(/\\,/g, ',').replace(/\\;/g, ';')\<close>.
\<close>

definition service_unescape :: "string \<Rightarrow> string" where
  "service_unescape val =
     replace_pair BACKSLASH (CHR ''n'') LF
       (replace_pair BACKSLASH (CHR '';'') (CHR '';'')
         (replace_pair BACKSLASH (CHR '','') (CHR '','') val))"

definition service_unescape_location :: "string \<Rightarrow> string" where
  "service_unescape_location val =
     replace_pair BACKSLASH (CHR '';'') (CHR '';'')
       (replace_pair BACKSLASH (CHR '','') (CHR '','') val)"

section \<open>Properties\<close>

subsection \<open>The example of the specification\<close>

text \<open>
  C1. The parser turns the example document into exactly one event: its title is
  \<open>Midterm, Calc III\<close> with the comma unescaped, it is an all-day event, its start is
  the local calendar date 2025-05-22 (month 4 counted from zero) at 00:00:00, and its
  location is \<open>Main Hall A\<close>. The other fields are those of an ad hoc import.
\<close>

theorem example_document_parses:
  "parseICalContent example_document None None =
     [\<lparr>title = Some ''Midterm, Calc III'', description = None,
       startDate = Some (LocalTime \<lparr>year = 2025, month = 4, day = 22,
                                    hour = 0, minute = 0, second = 0\<rparr>),
       endDate = None, allDay = Some True, etype = Imported,
       color = Some ''#6366f1'', courseId = None, courseName = None,
       location = Some ''Main Hall A'', subscriptionUrl = None\<rparr>]"
  by code_simp

subsection \<open>Unfolding\<close>

lemma split_lines_from_sep:
  "LF \<notin> set l \<Longrightarrow> CR \<notin> set l \<Longrightarrow>
   split_lines_from cur (l @ LF # s) = (cur @ l) # split_lines_from [] s"
proof (induction l arbitrary: cur)
  case Nil
  then show ?case by (cases s) simp_all
next
  case (Cons c l)
  then show ?case by (cases l) auto
qed

lemma split_lines_from_last:
  "LF \<notin> set l \<Longrightarrow> CR \<notin> set l \<Longrightarrow> split_lines_from cur l = [cur @ l]"
proof (induction l arbitrary: cur)
  case Nil
  then show ?case by simp
next
  case (Cons c l)
  then show ?case by (cases l) auto
qed

lemma split_lines_join:
  "\<forall>l \<in> set (l # ls). LF \<notin> set l \<and> CR \<notin> set l \<Longrightarrow>
   split_lines (join_lines (l # ls)) = l # ls"
proof (induction ls arbitrary: l)
  case Nil
  then show ?case by (simp add: split_lines_def split_lines_from_last)
next
  case (Cons m ls)
  then show ?case by (simp add: split_lines_def split_lines_from_sep)
qed

lemma split_lines_from_clean:
  "LF \<notin> set cur \<Longrightarrow> CR \<notin> set cur \<Longrightarrow>
   \<forall>l \<in> set (split_lines_from cur s). LF \<notin> set l \<and> CR \<notin> set l"
  by (induction cur s rule: split_lines_from.induct) auto

lemma split_lines_from_nonempty: "split_lines_from cur s \<noteq> []"
  by (induction cur s rule: split_lines_from.induct) auto

lemma unfold_from_clean:
  "c \<notin> set l \<Longrightarrow> \<forall>y \<in> set rest. c \<notin> set y \<Longrightarrow> x \<in> set (unfold_from l rest)
   \<Longrightarrow> c \<notin> set x"
proof (induction rest arbitrary: l)
  case Nil
  then show ?case by simp
next
  case (Cons n rest)
  from Cons.prems(2) have n: "c \<notin> set n" and r: "\<forall>y \<in> set rest. c \<notin> set y"
    by simp_all
  show ?case
  proof (cases "is_continuation n")
    case True
    from n have "c \<notin> set (drop 1 n)" by (blast dest: in_set_dropD)
    with Cons.prems(1) have l: "c \<notin> set (l @ substring_from n 1)"
      by (simp add: substring_from_def)
    from Cons.prems(3) True have "x \<in> set (unfold_from (l @ substring_from n 1) rest)"
      by simp
    with l r show ?thesis by (rule Cons.IH)
  next
    case False
    with Cons.prems(3) have "x = l \<or> x \<in> set (unfold_from n rest)" by simp
    then show ?thesis
    proof
      assume "x = l"
      with Cons.prems(1) show ?thesis by simp
    next
      assume "x \<in> set (unfold_from n rest)"
      with n r show ?thesis by (rule Cons.IH)
    qed
  qed
qed

lemma unfold_from_nonempty: "unfold_from l rest \<noteq> []"
  by (induction rest arbitrary: l) auto

lemma length_unfold_from:
  "length (unfold_from l rest) = Suc (length (filter (\<lambda>x. \<not> is_continuation x) rest))"
  by (induction rest arbitrary: l) auto

lemma unfold_from_id:
  "\<forall>x \<in> set rest. \<not> is_continuation x \<Longrightarrow> unfold_from l rest = l # rest"
  by (induction rest arbitrary: l) auto

text \<open>
  The unfolder leaves a list of lines as it is exactly when no line after the first
  is a continuation line.
\<close>

lemma unfold_lines_fixed_iff:
  "unfold_lines ls = ls \<longleftrightarrow> (\<forall>x \<in> set (tl ls). \<not> is_continuation x)"
proof (cases ls)
  case Nil
  then show ?thesis by (simp add: unfold_lines_def)
next
  case (Cons l rest)
  show ?thesis
  proof
    assume "unfold_lines ls = ls"
    then have "length (unfold_from l rest) = Suc (length rest)"
      using Cons by (simp add: unfold_lines_def)
    then have "length (filter (\<lambda>x. \<not> is_continuation x) rest) = length rest"
      by (simp add: length_unfold_from)
    then have "\<forall>x \<in> set rest. \<not> is_continuation x"
      by (metis (mono_tags, lifting) filter_id_conv length_filter_less less_irrefl
          sum_length_filter_compl)
    then show "\<forall>x \<in> set (tl ls). \<not> is_continuation x" using Cons by simp
  next
    assume "\<forall>x \<in> set (tl ls). \<not> is_continuation x"
    then show "unfold_lines ls = ls" using Cons by (simp add: unfold_lines_def unfold_from_id)
  qed
qed

lemma is_continuation_append: "l \<noteq> [] \<Longrightarrow> is_continuation (l @ s) = is_continuation l"
  by (cases l) (simp_all add: is_continuation_def)

text \<open>
  When no empty line is followed by a continuation line, a logical line starts with
  its first physical line, an empty first physical line gives an empty logical line,
  and no later logical line is a continuation line.
\<close>

lemma unfold_from_shape:
  "\<not> blank_then_continuation (l # rest) \<Longrightarrow>
   \<exists>s ys. unfold_from l rest = (l @ s) # ys \<and> (l = [] \<longrightarrow> s = []) \<and>
          (\<forall>y \<in> set ys. \<not> is_continuation y)"
proof (induction rest arbitrary: l)
  case Nil
  then show ?case by simp
next
  case (Cons n rest)
  show ?case
  proof (cases "is_continuation n")
    case True
    with Cons.prems have l: "l \<noteq> []" and r: "\<not> blank_then_continuation (n # rest)" by auto
    from r have "\<not> blank_then_continuation ((l @ substring_from n 1) # rest)"
      using l by (cases rest) auto
    from Cons.IH[OF this] obtain s ys where
      "unfold_from (l @ substring_from n 1) rest = ((l @ substring_from n 1) @ s) # ys"
      "\<forall>y \<in> set ys. \<not> is_continuation y" by blast
    then show ?thesis using True l by auto
  next
    case False
    from Cons.prems have r: "\<not> blank_then_continuation (n # rest)" by auto
    from Cons.IH[OF r] obtain s ys where
      u: "unfold_from n rest = (n @ s) # ys" and e: "n = [] \<longrightarrow> s = []"
      and t: "\<forall>y \<in> set ys. \<not> is_continuation y" by blast
    have "\<not> is_continuation (n @ s)"
    proof (cases "n = []")
      case True
      then show ?thesis using e by (simp add: is_continuation_def)
    next
      case False
      then show ?thesis using \<open>\<not> is_continuation n\<close> by (simp add: is_continuation_append)
    qed
    then show ?thesis using False u t by auto
  qed
qed

lemma unfold_lines_tail:
  "\<not> blank_then_continuation ls \<Longrightarrow> \<forall>x \<in> set (tl (unfold_lines ls)). \<not> is_continuation x"
proof (cases ls)
  case Nil
  then show ?thesis by (simp add: unfold_lines_def)
next
  case (Cons l rest)
  assume "\<not> blank_then_continuation ls"
  from unfold_from_shape[OF this[unfolded Cons]] show ?thesis
    using Cons by (auto simp: unfold_lines_def)
qed

text \<open>
  Logical lines hold no line separator, so splitting the rejoined logical lines gives
  them back: unfolding the rejoined output is unfolding the list of logical lines.
\<close>

lemma unfold_rejoined: "unfold (join_lines (unfold x)) = unfold_lines (unfold x)"
proof -
  obtain l rest where sl: "split_lines x = l # rest"
    using split_lines_from_nonempty[of "[]" x]
    by (cases "split_lines x") (auto simp: split_lines_def)
  have c: "\<forall>y \<in> set (l # rest). LF \<notin> set y \<and> CR \<notin> set y"
    using split_lines_from_clean[of "[]" x] sl by (simp add: split_lines_def)
  obtain m ms where u: "unfold x = m # ms"
    using unfold_from_nonempty[of l rest] sl
    by (cases "unfold x") (auto simp: unfold_def unfold_lines_def)
  have ux: "unfold x = unfold_from l rest"
    using sl by (simp add: unfold_def unfold_lines_def)
  have "\<forall>y \<in> set (m # ms). LF \<notin> set y \<and> CR \<notin> set y"
  proof
    fix y assume "y \<in> set (m # ms)"
    then have y: "y \<in> set (unfold_from l rest)" using u ux by simp
    from c have "LF \<notin> set l" "\<forall>y \<in> set rest. LF \<notin> set y"
      and "CR \<notin> set l" "\<forall>y \<in> set rest. CR \<notin> set y" by simp_all
    with y show "LF \<notin> set y \<and> CR \<notin> set y"
      by (blast dest: unfold_from_clean)
  qed
  then have "split_lines (join_lines (m # ms)) = m # ms" by (rule split_lines_join)
  then show ?thesis using u by (simp add: unfold_def)
qed

text \<open>
  C9, as the claim states it, fails: in \<open>a\<close>, an empty line, and a line of two spaces
  and \<open>c\<close>, the continuation is folded into the empty line, which leaves the logical
  lines \<open>a\<close> and \<open> c\<close>; unfolding these again folds \<open> c\<close> into \<open>a\<close>.
\<close>

theorem unfold_not_idempotent:
  "unfold blank_fold_sample = [''a'', '' c''] \<and>
   unfold (join_lines (unfold blank_fold_sample)) = [''ac''] \<and>
   unfold (join_lines (unfold blank_fold_sample)) \<noteq> unfold blank_fold_sample"
  by code_simp

text \<open>
  C9, amended. Unfolding the rejoined output of the unfolder gives the same logical
  lines as unfolding once exactly when no logical line after the first begins with a
  space or a tab; this is so, in particular, for every text in which no empty line is
  directly followed by a continuation line.
\<close>

theorem unfold_idempotent_iff:
  "(unfold (join_lines (unfold x)) = unfold x
      \<longleftrightarrow> (\<forall>l \<in> set (tl (unfold x)). \<not> is_continuation l)) \<and>
   (\<not> blank_then_continuation (split_lines x)
      \<longrightarrow> unfold (join_lines (unfold x)) = unfold x)"
proof -
  have a: "unfold (join_lines (unfold x)) = unfold_lines (unfold x)"
    by (rule unfold_rejoined)
  have b: "unfold_lines (unfold x) = unfold x
             \<longleftrightarrow> (\<forall>l \<in> set (tl (unfold x)). \<not> is_continuation l)"
    by (rule unfold_lines_fixed_iff)
  have c: "\<not> blank_then_continuation (split_lines x)
             \<Longrightarrow> \<forall>l \<in> set (tl (unfold x)). \<not> is_continuation l"
    unfolding unfold_def by (rule unfold_lines_tail)
  show ?thesis using a b c by simp
qed

theorem unfold_idempotent_witness:
  "\<not> blank_then_continuation (split_lines folded_sample) \<and>
   unfold (join_lines (unfold folded_sample)) = unfold folded_sample \<and>
   unfold folded_sample = [''SUMMARY:Midterm'', []]"
proof -
  have h: "\<not> blank_then_continuation (split_lines folded_sample)"
    by code_simp
  have v: "unfold folded_sample = [''SUMMARY:Midterm'', []]"
    by code_simp
  from unfold_idempotent_iff[of folded_sample] h
  have "unfold (join_lines (unfold folded_sample)) = unfold folded_sample"
    by (rule conjunct2[THEN mp])
  with h v show ?thesis by (intro conjI)
qed

subsection \<open>Field unescaper\<close>

text \<open>
  C2. The value \<open>C:\\new\<close>, the escaped form of \<open>C:\new\<close>, has an escaped backslash
  followed by the letter \<open>n\<close>. A single pass from left to right gives back \<open>C:\new\<close>;
  \<open>unescapeValue\<close> replaces backslash-n over the whole value first, which takes the
  second backslash together with the \<open>n\<close>, and leaves a backslash and a line feed.
  The older importer does the same on this value; it also leaves an escaped backslash
  as two backslashes, and an escaped line feed in a location as it is.
\<close>

theorem unescapeValue_escaped_backslash:
  "unescapeValue (''C:'' @ [BACKSLASH, BACKSLASH] @ ''new'') = ''C:'' @ [BACKSLASH, LF] @ ''ew'' \<and>
   spec_unescape (''C:'' @ [BACKSLASH, BACKSLASH] @ ''new'') = ''C:'' @ [BACKSLASH] @ ''new'' \<and>
   unescapeValue (''C:'' @ [BACKSLASH, BACKSLASH] @ ''new'')
     \<noteq> spec_unescape (''C:'' @ [BACKSLASH, BACKSLASH] @ ''new'') \<and>
   service_unescape (''C:'' @ [BACKSLASH, BACKSLASH] @ ''new'')
     = ''C:'' @ [BACKSLASH, LF] @ ''ew'' \<and>
   service_unescape (''a'' @ [BACKSLASH, BACKSLASH] @ ''b'') = ''a'' @ [BACKSLASH, BACKSLASH] @ ''b'' \<and>
   service_unescape_location (''Hall'' @ [BACKSLASH] @ ''nA'') = ''Hall'' @ [BACKSLASH] @ ''nA''"
  by code_simp

subsection \<open>Date/time decoder\<close>

lemma of_char_digit_char: "k < 10 \<Longrightarrow> (of_char (digit_char k) :: nat) = 48 + k"
  by (simp add: digit_char_def)

lemma digit_char_decimal: "k < 10 \<Longrightarrow> is_decimal_digit (digit_char k)"
  by (simp add: is_decimal_digit_def of_char_digit_char)

lemma digit_value_digit_char: "k < 10 \<Longrightarrow> digit_value (digit_char k) = k"
  by (simp add: digit_value_def digit_char_decimal of_char_digit_char)

lemma decimal_not_special:
  assumes "is_decimal_digit c"
  shows "\<not> is_str_whitespace c" "c \<noteq> CHR ''-''" "c \<noteq> CHR ''+''" "c \<noteq> CHR ''x''"
    "c \<noteq> CHR ''X''" "c \<noteq> CHR ''Z''"
  using assms by (auto simp: is_decimal_digit_def is_str_whitespace_def)

lemma parseInt_two:
  assumes "is_decimal_digit a" "is_decimal_digit b"
  shows "parseInt [a, b] = Num (int (digit_value a * 10 + digit_value b))"
  using assms decimal_not_special[OF assms(1)] decimal_not_special[OF assms(2)]
  by (simp add: parseInt_def Let_def is_radix_digit_def numeral_value_def)

lemma parseInt_four:
  assumes "is_decimal_digit a" "is_decimal_digit b" "is_decimal_digit c" "is_decimal_digit d"
  shows "parseInt [a, b, c, d] =
           Num (int (((digit_value a * 10 + digit_value b) * 10 + digit_value c) * 10
                     + digit_value d))"
  using assms decimal_not_special[OF assms(1)] decimal_not_special[OF assms(2)]
  by (simp add: parseInt_def Let_def is_radix_digit_def numeral_value_def)

lemma two_digit_sum: "(n::nat) div 10 * 10 + n mod 10 = n"
  by simp

lemma four_digit_sum:
  "(((n::nat) div 1000 * 10 + n div 100 mod 10) * 10 + n div 10 mod 10) * 10 + n mod 10 = n"
proof -
  define a where "a = n div 10"
  define b where "b = a div 10"
  define c where "c = b div 10"
  have h: "n div 100 = b" "n div 1000 = c"
    by (simp_all add: a_def b_def c_def div_mult2_eq)
  have "c * 10 + b mod 10 = b" by (simp add: c_def)
  moreover have "b * 10 + a mod 10 = a" by (simp add: b_def)
  moreover have "a * 10 + n mod 10 = n" by (simp add: a_def)
  ultimately show ?thesis by (simp add: h flip: a_def)
qed

lemma parseInt_two_digits: "n < 100 \<Longrightarrow> parseInt (two_digits n) = Num (int n)"
proof -
  assume n: "n < 100"
  then have a: "n div 10 < 10" and b: "n mod 10 < 10" by simp_all
  have "parseInt (two_digits n) = Num (int (n div 10 * 10 + n mod 10))"
    unfolding two_digits_def
    by (simp only: parseInt_two digit_char_decimal digit_value_digit_char a b)
  then show ?thesis by (simp only: two_digit_sum)
qed

lemma parseInt_four_digits: "n < 10000 \<Longrightarrow> parseInt (four_digits n) = Num (int n)"
proof -
  assume n: "n < 10000"
  then have a: "n div 1000 < 10" by simp
  have b: "n div 100 mod 10 < 10" "n div 10 mod 10 < 10" "n mod 10 < 10" by simp_all
  have "parseInt (four_digits n) =
          Num (int (((n div 1000 * 10 + n div 100 mod 10) * 10 + n div 10 mod 10) * 10
                    + n mod 10))"
    unfolding four_digits_def
    by (simp only: parseInt_four digit_char_decimal digit_value_digit_char a b)
  then show ?thesis by (simp only: four_digit_sum)
qed

text \<open>The six fields sit where the decoder cuts the token, whatever follows it.\<close>

lemma token_substrings:
  "substring (datetime_token y mo d h mi s @ z) 0 4 = four_digits y"
  "substring (datetime_token y mo d h mi s @ z) 4 6 = two_digits mo"
  "substring (datetime_token y mo d h mi s @ z) 6 8 = two_digits d"
  "substring (datetime_token y mo d h mi s @ z) 9 11 = two_digits h"
  "substring (datetime_token y mo d h mi s @ z) 11 13 = two_digits mi"
  "substring (datetime_token y mo d h mi s @ z) 13 15 = two_digits s"
  by (simp_all add: substring_def datetime_token_def four_digits_def two_digits_def)

lemma token_endsWith:
  "endsWith (datetime_token y mo d h mi s @ ''Z'') ''Z''"
  "\<not> endsWith (datetime_token y mo d h mi s) ''Z''"
proof -
  show "endsWith (datetime_token y mo d h mi s @ ''Z'') ''Z''"
    by (simp add: endsWith_def)
  have "is_decimal_digit (digit_char (s mod 10))" by (simp add: digit_char_decimal)
  then have "digit_char (s mod 10) \<noteq> CHR ''Z''" by (rule decimal_not_special)
  then show "\<not> endsWith (datetime_token y mo d h mi s) ''Z''"
    by (simp add: endsWith_def datetime_token_def two_digits_def)
qed

text \<open>What the decoder does with a property that is not marked as a date.\<close>

lemma parseDate_timed:
  "timed parts \<Longrightarrow>
   parseDate val parts =
     (if endsWith val ''Z''
      then new_Date_UTC (parseInt (substring val 0 4)) (minus_one (parseInt (substring val 4 6)))
             (parseInt (substring val 6 8)) (or_zero (parseInt (substring val 9 11)))
             (or_zero (parseInt (substring val 11 13))) (or_zero (parseInt (substring val 13 15)))
      else new_Date (parseInt (substring val 0 4)) (minus_one (parseInt (substring val 4 6)))
             (parseInt (substring val 6 8)) (or_zero (parseInt (substring val 9 11)))
             (or_zero (parseInt (substring val 11 13))) (or_zero (parseInt (substring val 13 15))))"
  by (simp add: parseDate_def timed_def Let_def)

lemma parseInt_empty: "parseInt [] = NaN"
  by (simp add: parseInt_def)


text \<open>The calendar and the clock where nothing is carried.\<close>

lemma civil_from_in_month:
  "1 \<le> d \<Longrightarrow> d \<le> days_in_month y m \<Longrightarrow> civil_from y m d = (y, m, d)"
  by (subst civil_from.simps) simp

lemma clock_in_range:
  assumes "0 \<le> h" "h < 24" "0 \<le> mi" "mi < 60" "0 \<le> s" "s < (60::int)"
  shows "(h * 3600 + mi * 60 + s) div 86400 = 0"
    and "(h * 3600 + mi * 60 + s) mod 86400 div 3600 = h"
    and "(h * 3600 + mi * 60 + s) mod 3600 div 60 = mi"
    and "(h * 3600 + mi * 60 + s) mod 60 = s"
proof -
  let ?t = "h * 3600 + mi * 60 + s"
  let ?r = "mi * 60 + s"
  have r: "0 \<le> ?r" "?r < 3600" using assms by simp_all
  have t: "0 \<le> ?t" "?t < 86400" using assms by simp_all
  show "?t div 86400 = 0" using t by (rule div_pos_pos_trivial)
  have m: "?t mod 86400 = ?t" using t by (rule mod_pos_pos_trivial)
  have t3: "?t = ?r + h * 3600" by simp
  have "?t div 3600 = h + ?r div 3600" unfolding t3 by (rule div_mult_self1) simp
  also have "?r div 3600 = 0" using r by (rule div_pos_pos_trivial)
  finally have d: "?t div 3600 = h" by simp
  have "?t mod 3600 = ?r mod 3600" unfolding t3 by (rule mod_mult_self1)
  also have "?r mod 3600 = ?r" using r by (rule mod_pos_pos_trivial)
  finally have e: "?t mod 3600 = ?r" .
  show "?t mod 86400 div 3600 = h" by (simp only: m d)
  have r6: "?r = s + mi * 60" by simp
  have "?r div 60 = mi + s div 60" unfolding r6 by (rule div_mult_self1) simp
  also have "s div 60 = 0" using assms(5,6) by (rule div_pos_pos_trivial)
  finally have "?r div 60 = mi" by simp
  then show "?t mod 3600 div 60 = mi" by (simp only: e)
  have t6: "?t = s + (h * 60 + mi) * 60" by simp
  have "?t mod 60 = s mod 60" unfolding t6 by (rule mod_mult_self1)
  also have "s mod 60 = s" using assms(5,6) by (rule mod_pos_pos_trivial)
  finally show "?t mod 60 = s" .
qed

text \<open>The fields of a date made from six numbers.\<close>

lemma date_fields_unfold:
  "date_fields (Num y) (Num m) (Num d) (Num h) (Num mi) (Num s) =
     Some \<lparr>year = fst (civil_from ((if 0 \<le> y \<and> y \<le> 99 then 1900 + y else y) + m div 12)
                         (m mod 12) (d + (h * 3600 + mi * 60 + s) div 86400)),
           month = fst (snd (civil_from ((if 0 \<le> y \<and> y \<le> 99 then 1900 + y else y) + m div 12)
                         (m mod 12) (d + (h * 3600 + mi * 60 + s) div 86400))),
           day = snd (snd (civil_from ((if 0 \<le> y \<and> y \<le> 99 then 1900 + y else y) + m div 12)
                         (m mod 12) (d + (h * 3600 + mi * 60 + s) div 86400))),
           hour = (h * 3600 + mi * 60 + s) mod 86400 div 3600,
           minute = (h * 3600 + mi * 60 + s) mod 3600 div 60,
           second = (h * 3600 + mi * 60 + s) mod 60\<rparr>"
  by (simp only: date_fields.simps Let_def case_prod_beta)




text \<open>A date the calendar has, with a time of day, is kept as it is.\<close>

lemma date_fields_kept:
  assumes "0 \<le> m" "m \<le> 11" "1 \<le> d"
    and "d \<le> days_in_month (if 0 \<le> y \<and> y \<le> 99 then 1900 + y else y) m"
    and "0 \<le> h" "h < 24" "0 \<le> mi" "mi < 60" "0 \<le> s" "s < 60"
  shows "date_fields (Num y) (Num m) (Num d) (Num h) (Num mi) (Num s) =
           Some \<lparr>year = (if 0 \<le> y \<and> y \<le> 99 then 1900 + y else y), month = m, day = d,
                 hour = h, minute = mi, second = s\<rparr>"
proof -
  let ?y = "if 0 \<le> y \<and> y \<le> 99 then 1900 + y else y"
  have m: "m div 12 = 0" "m mod 12 = m" using assms(1,2) by simp_all
  note c = clock_in_range[OF assms(5-10)]
  have "civil_from (?y + m div 12) (m mod 12) (d + (h * 3600 + mi * 60 + s) div 86400)
          = (?y, m, d)"
    by (simp only: m c add_0_right civil_from_in_month[OF assms(3,4)])
  then show ?thesis
    unfolding date_fields_unfold by (simp only: c fst_conv snd_conv)
qed


lemma parseICalDate_parseDate: "parseICalDate val parts = parseDate val parts"
  by (simp add: parseICalDate_def parseDate_def Let_def)

text \<open>
  C3, as the claim states it, fails in several ways. A year from 0000 to 0099 is
  read as a year of the twentieth century. A well-formed token may name a day the
  month does not have, and the date is then counted on: \<open>20250231T090000Z\<close> is 3 March.
  A local time that the zone of the host skips is moved: on a host that puts its
  clocks forward at 02:00 on 9 March 2025, \<open>20250309T023000\<close> shows 03:30. And of the
  decoders in the repository, the one of the earlier tab does not look at the \<open>Z\<close>
  and reads the example as local time, and the one of the basic parser reads the
  example without \<open>Z\<close> as UTC.
\<close>

theorem parseDate_not_those_fields:
  "parseDate ''00500615T090000Z'' [''DTSTART''] =
     UtcTime \<lparr>year = 1950, month = 5, day = 15, hour = 9, minute = 0, second = 0\<rparr> \<and>
   parseDate ''20250231T090000Z'' [''DTSTART''] =
     UtcTime \<lparr>year = 2025, month = 2, day = 3, hour = 9, minute = 0, second = 0\<rparr> \<and>
   shown spring_forward (parseDate ''20250309T023000'' [''DTSTART'']) =
     Some \<lparr>year = 2025, month = 2, day = 9, hour = 3, minute = 30, second = 0\<rparr> \<and>
   parseDate_import ''20250615T090000Z'' [''DTSTART''] =
     LocalTime \<lparr>year = 2025, month = 5, day = 15, hour = 9, minute = 0, second = 0\<rparr> \<and>
   parseDate_basic epoch ''20250615T090000'' =
     UtcTime \<lparr>year = 2025, month = 5, day = 15, hour = 9, minute = 0, second = 0\<rparr>"
  by code_simp

text \<open>
  C3, amended. For the decoder of \<open>parseICalContent\<close> (and \<open>parseICalDate\<close>, which is
  the same function) and every date-time token whose fields are a date the calendar
  has and a time of day: the token followed by \<open>Z\<close> decodes to the date that shows
  these fields in UTC, and the token alone to the date made for the local time with
  these fields, which shows them wherever the zone of the host has that local time.
  The year shown is the year of the token from 0100 on, and 1900 plus it below.
\<close>

theorem parseDate_datetime_token:
  assumes "wall_clock y mo d h mi s" and "timed parts"
  shows "parseDate (datetime_token y mo d h mi s @ ''Z'') parts =
           UtcTime \<lparr>year = read_year y, month = int mo - 1, day = int d,
                    hour = int h, minute = int mi, second = int s\<rparr> \<and>
         shown host (parseDate (datetime_token y mo d h mi s @ ''Z'') parts) =
           Some \<lparr>year = read_year y, month = int mo - 1, day = int d,
                  hour = int h, minute = int mi, second = int s\<rparr> \<and>
         parseDate (datetime_token y mo d h mi s) parts =
           LocalTime \<lparr>year = read_year y, month = int mo - 1, day = int d,
                      hour = int h, minute = int mi, second = int s\<rparr> \<and>
         (host \<lparr>year = read_year y, month = int mo - 1, day = int d,
                hour = int h, minute = int mi, second = int s\<rparr> =
            \<lparr>year = read_year y, month = int mo - 1, day = int d,
             hour = int h, minute = int mi, second = int s\<rparr> \<longrightarrow>
          shown host (parseDate (datetime_token y mo d h mi s) parts) =
            Some \<lparr>year = read_year y, month = int mo - 1, day = int d,
                   hour = int h, minute = int mi, second = int s\<rparr>) \<and>
         parseICalDate (datetime_token y mo d h mi s @ ''Z'') parts =
           parseDate (datetime_token y mo d h mi s @ ''Z'') parts \<and>
         parseICalDate (datetime_token y mo d h mi s) parts =
           parseDate (datetime_token y mo d h mi s) parts"
proof -
  let ?F = "\<lparr>year = read_year y, month = int mo - 1, day = int d,
             hour = int h, minute = int mi, second = int s\<rparr>"
  have dm: "days_in_month (read_year y) (int mo - 1) \<le> 31"
    by (simp add: days_in_month_def)
  from assms(1) have "int d \<le> days_in_month (read_year y) (int mo - 1)"
    by (simp add: wall_clock_def)
  with dm have d: "d < 100" by simp
  from assms(1) have r: "y < 10000" "mo < 100" "h < 100" "mi < 100" "s < 100"
    by (simp_all add: wall_clock_def)
  have p: "parseInt (four_digits y) = Num (int y)" "parseInt (two_digits mo) = Num (int mo)"
    "parseInt (two_digits d) = Num (int d)" "parseInt (two_digits h) = Num (int h)"
    "parseInt (two_digits mi) = Num (int mi)" "parseInt (two_digits s) = Num (int s)"
    using r d by (simp_all add: parseInt_four_digits parseInt_two_digits)
  have ry: "(if 0 \<le> int y \<and> int y \<le> 99 then 1900 + int y else int y) = read_year y"
    by (simp add: read_year_def)
  from assms(1) have w: "0 \<le> int mo - 1" "int mo - 1 \<le> 11" "1 \<le> int d"
    "int d \<le> days_in_month (if 0 \<le> int y \<and> int y \<le> 99 then 1900 + int y else int y) (int mo - 1)"
    "0 \<le> int h" "int h < 24" "0 \<le> int mi" "int mi < 60" "0 \<le> int s" "int s < 60"
    unfolding ry by (simp_all add: wall_clock_def)
  have f: "date_fields (Num (int y)) (minus_one (Num (int mo))) (Num (int d))
             (or_zero (Num (int h))) (or_zero (Num (int mi))) (or_zero (Num (int s))) = Some ?F"
    unfolding minus_one.simps or_zero.simps date_fields_kept[OF w] ry ..
  have u: "parseDate (datetime_token y mo d h mi s @ ''Z'') parts =
           new_Date_UTC (Num (int y)) (minus_one (Num (int mo))) (Num (int d))
             (or_zero (Num (int h))) (or_zero (Num (int mi))) (or_zero (Num (int s)))"
    by (simp only: parseDate_timed[OF assms(2)] token_endsWith token_substrings p if_True)
  have l: "parseDate (datetime_token y mo d h mi s) parts =
           new_Date (Num (int y)) (minus_one (Num (int mo))) (Num (int d))
             (or_zero (Num (int h))) (or_zero (Num (int mi))) (or_zero (Num (int s)))"
    using token_substrings[of y mo d h mi s "[]"]
    by (simp only: parseDate_timed[OF assms(2)] token_endsWith p if_False append_Nil2)
  have U: "parseDate (datetime_token y mo d h mi s @ ''Z'') parts = UtcTime ?F"
    unfolding u new_Date_UTC_def f by simp
  have L: "parseDate (datetime_token y mo d h mi s) parts = LocalTime ?F"
    unfolding l new_Date_def f by simp
  show ?thesis
    unfolding parseICalDate_parseDate U L by simp
qed

theorem parseDate_datetime_token_witness:
  "wall_clock 2025 6 15 9 0 0 \<and> timed [''DTSTART''] \<and>
   datetime_token 2025 6 15 9 0 0 = ''20250615T090000'' \<and>
   parseDate ''20250615T090000Z'' [''DTSTART''] =
     UtcTime \<lparr>year = 2025, month = 5, day = 15, hour = 9, minute = 0, second = 0\<rparr> \<and>
   parseDate ''20250615T090000'' [''DTSTART''] =
     LocalTime \<lparr>year = 2025, month = 5, day = 15, hour = 9, minute = 0, second = 0\<rparr> \<and>
   shown spring_forward (parseDate ''20250615T090000'' [''DTSTART'']) =
     Some \<lparr>year = 2025, month = 5, day = 15, hour = 9, minute = 0, second = 0\<rparr>"
proof -
  have w: "wall_clock 2025 6 15 9 0 0"
    by (simp add: wall_clock_def read_year_def days_in_month_def)
  have t: "timed [''DTSTART'']" by (simp add: timed_def)
  have k: "datetime_token 2025 6 15 9 0 0 = ''20250615T090000''" by code_simp
  have y: "read_year 2025 = 2025" by (simp add: read_year_def)
  have g: "spring_forward \<lparr>year = 2025, month = 5, day = 15, hour = 9, minute = 0, second = 0\<rparr> =
             \<lparr>year = 2025, month = 5, day = 15, hour = 9, minute = 0, second = 0\<rparr>"
    by (simp add: spring_forward_def)
  from parseDate_datetime_token[OF w t, of spring_forward] w t k g show ?thesis
    by (simp add: y)
qed




subsection \<open>Event store\<close>

lemma revive_all_events: "revive_all (map Event_elem evs) = Inr (map revive evs)"
  by (induction evs) simp_all

lemma getEvents_saveEvents: "getEvents (saveEvents evs) = map revive evs"
  by (simp add: getEvents_def saveEvents_def revive_all_events)

lemma subscriptionUrl_revive: "subscriptionUrl (revive ev) = subscriptionUrl ev"
  by (simp add: revive_def)

lemma revive_twice: "startDate ev \<noteq> None \<Longrightarrow> revive (revive ev) = revive ev"
  by (cases "startDate ev"; cases "endDate ev")
     (auto simp: revive_def split: jsdate.splits)

lemma filter_map_revive:
  "filter (\<lambda>e. P (subscriptionUrl e)) (map revive evs)
     = map revive (filter (\<lambda>e. P (subscriptionUrl e)) evs)"
  by (induction evs) (simp_all add: subscriptionUrl_revive)

lemma revive_all_dated:
  "list_all has_startDate els \<Longrightarrow> revive_all els = Inr evs \<Longrightarrow>
   \<forall>e \<in> set evs. revive e = e"
proof (induction els arbitrary: evs)
  case Nil
  then show ?case by simp
next
  case (Cons el els)
  show ?case
  proof (cases el)
    case Throwing_elem
    with Cons.prems show ?thesis by simp
  next
    case (Event_elem ev)
    with Cons.prems obtain evs' where r: "revive_all els = Inr evs'" and e: "evs = revive ev # evs'"
      by (auto split: sum.splits)
    from Cons.prems Event_elem have "startDate ev \<noteq> None" by simp
    then have "revive (revive ev) = revive ev" by (rule revive_twice)
    moreover from Cons.prems have "list_all has_startDate els" by simp
    then have "\<forall>e \<in> set evs'. revive e = e" using r by (rule Cons.IH)
    ultimately show ?thesis using e by simp
  qed
qed

lemma getEvents_dated:
  "has_startDates stored \<Longrightarrow> \<forall>e \<in> set (getEvents stored). revive e = e"
proof (cases stored)
  case (Array els)
  assume "has_startDates stored"
  with Array have d: "list_all has_startDate els" by simp
  show ?thesis
  proof (cases "revive_all els")
    case (Inl err)
    with Array show ?thesis by (simp add: getEvents_def)
  next
    case (Inr evs)
    with revive_all_dated[OF d Inr] Array show ?thesis by (simp add: getEvents_def)
  qed
qed (simp_all add: getEvents_def)

text \<open>
  C10. \<open>getEvents\<close> returns the empty list when there is no item, when the item is the
  empty text and when the text is not valid JSON; more generally, whatever its
  \<^verbatim>\<open>try\<close> block throws is caught and answered with the empty list, so the function
  itself never throws. What \<^verbatim>\<open>saveEvents\<close> wrote is read back event by event.
\<close>

theorem getEvents_never_throws:
  "getEvents Absent = [] \<and> getEvents Empty_text = [] \<and> getEvents Malformed_text = [] \<and>
   (\<forall>stored err. getEvents_try stored = Inl err \<longrightarrow> getEvents stored = []) \<and>
   (\<forall>stored evs. getEvents_try stored = Inr evs \<longrightarrow> getEvents stored = evs) \<and>
   (\<forall>evs. getEvents (saveEvents evs) = map revive evs)"
  by (simp add: getEvents_def getEvents_saveEvents[unfolded getEvents_def])

theorem getEvents_never_throws_witness:
  "getEvents_try Malformed_text = Inl SyntaxError \<and> getEvents Malformed_text = [] \<and>
   getEvents_try (Array [Throwing_elem]) = Inl TypeError \<and> getEvents (Array [Throwing_elem]) = []"
proof -
  have a: "getEvents_try Malformed_text = Inl SyntaxError" by simp
  have b: "getEvents_try (Array [Throwing_elem]) = Inl TypeError" by simp
  from getEvents_never_throws a b show ?thesis by blast
qed

text \<open>
  C7. \<open>deleteSubscription\<close> writes back the events it read without those whose
  \<^verbatim>\<open>subscriptionUrl\<close> is the identifier: no event read afterwards is linked to the
  subscription, and, when every stored event has a start date, the events read
  afterwards are exactly the events read before that are not linked to it, in the same
  order and unchanged.
\<close>

theorem deleteSubscription_events:
  "stored_events (deleteSubscription sid st) =
     saveEvents (filter (\<lambda>e. subscriptionUrl e \<noteq> Some sid) (getEvents (stored_events st))) \<and>
   (\<forall>e \<in> set (getEvents (stored_events (deleteSubscription sid st))).
      subscriptionUrl e \<noteq> Some sid) \<and>
   (has_startDates (stored_events st) \<longrightarrow>
      getEvents (stored_events (deleteSubscription sid st)) =
        filter (\<lambda>e. subscriptionUrl e \<noteq> Some sid) (getEvents (stored_events st)))"
proof -
  let ?keep = "filter (\<lambda>e. subscriptionUrl e \<noteq> Some sid) (getEvents (stored_events st))"
  have s: "stored_events (deleteSubscription sid st) = saveEvents ?keep"
    by (simp add: deleteSubscription_def Let_def)
  have g: "getEvents (stored_events (deleteSubscription sid st)) = map revive ?keep"
    by (simp only: s getEvents_saveEvents)
  have u: "\<forall>e \<in> set (map revive ?keep). subscriptionUrl e \<noteq> Some sid"
    by (auto simp: subscriptionUrl_revive)
  have i: "map revive ?keep = ?keep" if "has_startDates (stored_events st)"
  proof -
    from getEvents_dated[OF that]
    have d: "\<forall>e \<in> set (getEvents (stored_events st)). revive e = e" .
    have k: "revive e = e" if "e \<in> set ?keep" for e
    proof -
      from that have "e \<in> set (getEvents (stored_events st))" by simp
      with d show ?thesis by blast
    qed
    show ?thesis by (rule map_idI) (rule k)
  qed
  show ?thesis
  proof (intro conjI impI)
    show "stored_events (deleteSubscription sid st) = saveEvents ?keep" by (rule s)
    show "\<forall>e \<in> set (getEvents (stored_events (deleteSubscription sid st))).
            subscriptionUrl e \<noteq> Some sid"
      unfolding g by (rule u)
    show "getEvents (stored_events (deleteSubscription sid st)) = ?keep"
      if "has_startDates (stored_events st)"
      unfolding g using that by (rule i)
  qed
qed

theorem deleteSubscription_events_witness:
  "has_startDates (stored_events sample_state) \<and>
   getEvents (stored_events sample_state) =
     [sample_event ''event_a'' ''Own'' None,
      sample_event ''event_b'' ''Lecture'' (Some ''sub_1''),
      sample_event ''event_c'' ''Seminar'' (Some ''sub_2'')] \<and>
   getEvents (stored_events (deleteSubscription ''sub_1'' sample_state)) =
     [sample_event ''event_a'' ''Own'' None,
      sample_event ''event_c'' ''Seminar'' (Some ''sub_2'')]"
proof -
  have h: "has_startDates (stored_events sample_state)"
    by (simp add: sample_state_def saveEvents_def sample_event_def sample_draft_def
        event_data.defs)
  have r: "revive (sample_event i t s) = sample_event i t s" for i t s
    by (simp add: revive_def sample_event_def sample_draft_def event_data.defs)
  have g: "getEvents (stored_events sample_state) =
     [sample_event ''event_a'' ''Own'' None,
      sample_event ''event_b'' ''Lecture'' (Some ''sub_1''),
      sample_event ''event_c'' ''Seminar'' (Some ''sub_2'')]"
    by (simp add: sample_state_def getEvents_saveEvents r)
  have u: "subscriptionUrl (sample_event i t s) = s" for i t s
    by (simp add: sample_event_def sample_draft_def event_data.defs)
  from deleteSubscription_events[of "''sub_1''" sample_state] h
  have "getEvents (stored_events (deleteSubscription ''sub_1'' sample_state)) =
        filter (\<lambda>e. subscriptionUrl e \<noteq> Some ''sub_1'') (getEvents (stored_events sample_state))"
    by blast
  then show ?thesis using h g by (simp add: u)
qed

text \<open>
  C6. When the request fails, when the response is not \<^verbatim>\<open>ok\<close>, when its text cannot
  be read, or when the text does not contain \<open>BEGIN:VCALENDAR\<close>, \<open>syncSubscription\<close>
  ends with an error and the state (the stored events, the stored subscriptions) is
  the one it started with. A text without the marker gives the error
  \<open>Invalid iCal format\<close>.
\<close>

theorem syncSubscription_failure:
  "(fetched = Inl err \<longrightarrow> syncSubscription ids now fetched sub st = (Inl err, st)) \<and>
   (fetched = Inr resp \<and> \<not> ok resp \<longrightarrow>
      syncSubscription ids now fetched sub st = (Inl (FetchFailed (status resp)), st)) \<and>
   (fetched = Inr resp \<and> ok resp \<and> body_text resp = Inl err \<longrightarrow>
      syncSubscription ids now fetched sub st = (Inl err, st)) \<and>
   (fetched = Inr resp \<and> ok resp \<and> body_text resp = Inr content \<and>
      \<not> includes_str content ''BEGIN:VCALENDAR'' \<longrightarrow>
      syncSubscription ids now fetched sub st = (Inl InvalidFormat, st))"
  by (simp add: syncSubscription_def)

theorem syncSubscription_failure_witness:
  "\<not> includes_str ''<html>Not found</html>'' ''BEGIN:VCALENDAR'' \<and>
   syncSubscription sample_ids epoch
     (Inr \<lparr>ok = True, status = 200, body_text = Inr ''<html>Not found</html>''\<rparr>)
     sample_subscription sample_state = (Inl InvalidFormat, sample_state) \<and>
   syncSubscription sample_ids epoch (Inl (OtherError ''Failed to fetch''))
     sample_subscription sample_state = (Inl (OtherError ''Failed to fetch''), sample_state)"
proof -
  have m: "\<not> includes_str ''<html>Not found</html>'' ''BEGIN:VCALENDAR''" by code_simp
  have a: "syncSubscription sample_ids epoch
     (Inr \<lparr>ok = True, status = 200, body_text = Inr ''<html>Not found</html>''\<rparr>)
     sample_subscription sample_state = (Inl InvalidFormat, sample_state)"
    using m syncSubscription_failure[of
        "Inr \<lparr>ok = True, status = 200, body_text = Inr ''<html>Not found</html>''\<rparr>"
        undefined sample_ids epoch sample_subscription sample_state
        "\<lparr>ok = True, status = 200, body_text = Inr ''<html>Not found</html>''\<rparr>"
        "''<html>Not found</html>''"]
    by simp
  have b: "syncSubscription sample_ids epoch (Inl (OtherError ''Failed to fetch''))
     sample_subscription sample_state = (Inl (OtherError ''Failed to fetch''), sample_state)"
    using syncSubscription_failure[of "Inl (OtherError ''Failed to fetch'')"
        "OtherError ''Failed to fetch''" sample_ids epoch sample_subscription sample_state]
    by simp
  from m a b show ?thesis by (intro conjI)
qed

subsection \<open>Replacing the events of a subscription\<close>

lemma extend_fields:
  "subscriptionUrl (event_data.extend d x) = subscriptionUrl d"
  "startDate (event_data.extend d x) = startDate d"
  "event_data.truncate (event_data.extend d x) = d"
  by (simp_all add: event_data.defs)

lemma fst_addEvent:
  "fst (addEvent ids d st) = event_data.extend d (event.fields (ids (ids_drawn st)))"
  by (simp add: addEvent_def Let_def)

lemma getEvents_addEvent:
  "getEvents (stored_events (snd (addEvent ids d st))) =
     map revive (getEvents (stored_events st)) @ [revive (fst (addEvent ids d st))]"
  by (simp add: addEvent_def Let_def getEvents_saveEvents)

lemma addEvents_Cons:
  "fst (addEvents ids (d # ds) st) =
     fst (addEvent ids d st) # fst (addEvents ids ds (snd (addEvent ids d st)))"
  "snd (addEvents ids (d # ds) st) = snd (addEvents ids ds (snd (addEvent ids d st)))"
  by (simp_all add: Let_def split: prod.splits)

lemma addEvents_drafts: "map event_data.truncate (fst (addEvents ids ds st)) = ds"
proof (induction ds arbitrary: st)
  case Nil
  show ?case by simp
next
  case (Cons d ds)
  show ?case
    by (simp only: addEvents_Cons list.map Cons.IH fst_addEvent extend_fields)
qed

text \<open>
  Adding drafts of a subscription appends them, as they are read back, to the events
  of that subscription.
\<close>

lemma addEvents_linked:
  assumes "\<forall>e \<in> set (getEvents (stored_events st)). subscriptionUrl e = Some sid \<longrightarrow> revive e = e"
    and "\<forall>d \<in> set ds. subscription_draft sid d"
  shows "filter (\<lambda>e. subscriptionUrl e = Some sid)
           (getEvents (stored_events (snd (addEvents ids ds st)))) =
         filter (\<lambda>e. subscriptionUrl e = Some sid) (getEvents (stored_events st)) @
           map revive (fst (addEvents ids ds st))"
  using assms
proof (induction ds arbitrary: st)
  case Nil
  show ?case by simp
next
  case (Cons d ds)
  let ?L = "\<lambda>e::event. subscriptionUrl e = Some sid"
  let ?G = "getEvents (stored_events st)"
  let ?new = "fst (addEvent ids d st)"
  let ?st1 = "snd (addEvent ids d st)"
  from Cons.prems(2) have d: "subscriptionUrl d = Some sid" "startDate d \<noteq> None"
    and ds: "\<forall>d \<in> set ds. subscription_draft sid d"
    by (simp_all add: subscription_draft_def)
  have new: "subscriptionUrl ?new = Some sid" "startDate ?new \<noteq> None"
    using d by (simp_all add: fst_addEvent extend_fields)
  have stable: "map revive (filter ?L ?G) = filter ?L ?G"
  proof (rule map_idI)
    fix e assume "e \<in> set (filter ?L ?G)"
    then have "e \<in> set ?G" "subscriptionUrl e = Some sid" by simp_all
    with Cons.prems(1) show "revive e = e" by blast
  qed
  have g1: "filter ?L (getEvents (stored_events ?st1)) = filter ?L ?G @ [revive ?new]"
  proof -
    have "filter ?L (getEvents (stored_events ?st1)) =
            filter ?L (map revive ?G) @ filter ?L [revive ?new]"
      by (simp only: getEvents_addEvent filter_append)
    also have "filter ?L (map revive ?G) = map revive (filter ?L ?G)"
      by (rule filter_map_revive)
    also have "filter ?L [revive ?new] = [revive ?new]"
      using new(1) by (simp add: subscriptionUrl_revive)
    finally show ?thesis by (simp only: stable)
  qed
  have inv1: "\<forall>e \<in> set (getEvents (stored_events ?st1)). subscriptionUrl e = Some sid \<longrightarrow> revive e = e"
  proof (intro ballI impI)
    fix e assume e: "e \<in> set (getEvents (stored_events ?st1))" and l: "subscriptionUrl e = Some sid"
    then have "e \<in> set (filter ?L (getEvents (stored_events ?st1)))" by simp
    then have "e \<in> set (filter ?L ?G) \<or> e = revive ?new" by (simp only: g1) auto
    then show "revive e = e"
    proof
      assume "e \<in> set (filter ?L ?G)"
      then have "e \<in> set ?G" "subscriptionUrl e = Some sid" by simp_all
      with Cons.prems(1) show ?thesis by blast
    next
      assume "e = revive ?new"
      then show ?thesis using new(2) by (simp add: revive_twice)
    qed
  qed
  have "filter ?L (getEvents (stored_events (snd (addEvents ids (d # ds) st)))) =
          filter ?L (getEvents (stored_events (snd (addEvents ids ds ?st1))))"
    by (simp only: addEvents_Cons)
  also have "\<dots> = filter ?L (getEvents (stored_events ?st1)) @
                     map revive (fst (addEvents ids ds ?st1))"
    using inv1 ds by (rule Cons.IH)
  also have "\<dots> = filter ?L ?G @ map revive (fst (addEvents ids (d # ds) st))"
    by (simp only: g1 addEvents_Cons list.map append_assoc append_Cons append_Nil)
  finally show ?case .
qed

text \<open>
  After the replace step the events of the subscription are the drafts of that step,
  whatever the store held before.
\<close>

lemma replaceSubscriptionEvents_linked:
  assumes "\<forall>d \<in> set ds. subscription_draft sid d"
  shows "filter (\<lambda>e. subscriptionUrl e = Some sid)
           (getEvents (stored_events (snd (replaceSubscriptionEvents ids sid ds st)))) =
         map revive (fst (replaceSubscriptionEvents ids sid ds st))"
proof -
  let ?L = "\<lambda>e::event. subscriptionUrl e = Some sid"
  let ?other = "filter (\<lambda>e. subscriptionUrl e \<noteq> Some sid) (getEvents (stored_events st))"
  let ?st1 = "st\<lparr>stored_events := saveEvents ?other\<rparr>"
  have r: "replaceSubscriptionEvents ids sid ds st = addEvents ids ds ?st1"
    by (simp add: replaceSubscriptionEvents_def Let_def)
  have g: "getEvents (stored_events ?st1) = map revive ?other"
    by (simp add: getEvents_saveEvents)
  have none: "filter ?L (getEvents (stored_events ?st1)) = []"
    unfolding g by (simp add: filter_empty_conv subscriptionUrl_revive)
  then have inv: "\<forall>e \<in> set (getEvents (stored_events ?st1)). subscriptionUrl e = Some sid \<longrightarrow> revive e = e"
    by (simp only: filter_empty_conv) blast
  from addEvents_linked[OF inv assms, of ids] show ?thesis
    by (simp only: r none append_Nil)
qed

text \<open>
  C5. After two replace steps for the same subscription, the stored events linked to
  the subscription are the drafts of the second step, each with the identifier
  \<open>addEvent\<close> gave it and as \<open>getEvents\<close> reads it back, in order; nothing of the first
  step is left. The drafts are those the parser emits for the subscription: they
  carry its identifier and a start date.
\<close>

theorem replaceSubscriptionEvents_twice:
  assumes "\<forall>d \<in> set drafts2. subscription_draft sid d"
  shows "filter (\<lambda>e. subscriptionUrl e = Some sid)
           (getEvents (stored_events
              (snd (replaceSubscriptionEvents ids sid drafts2
                     (snd (replaceSubscriptionEvents ids sid drafts1 st)))))) =
         map revive
           (fst (replaceSubscriptionEvents ids sid drafts2
                  (snd (replaceSubscriptionEvents ids sid drafts1 st)))) \<and>
         map event_data.truncate
           (fst (replaceSubscriptionEvents ids sid drafts2
                  (snd (replaceSubscriptionEvents ids sid drafts1 st)))) = drafts2"
proof -
  have "map event_data.truncate (fst (replaceSubscriptionEvents ids sid drafts2 s)) = drafts2"
    for s by (simp add: replaceSubscriptionEvents_def Let_def addEvents_drafts)
  with replaceSubscriptionEvents_linked[OF assms] show ?thesis by blast
qed

theorem replaceSubscriptionEvents_twice_witness:
  "filter (\<lambda>e. subscriptionUrl e = Some ''sub_1'')
     (getEvents (stored_events
        (snd (replaceSubscriptionEvents sample_ids ''sub_1''
               [sample_draft ''New'' (Some ''sub_1'')]
               (snd (replaceSubscriptionEvents sample_ids ''sub_1''
                      [sample_draft ''Old 1'' (Some ''sub_1''),
                       sample_draft ''Old 2'' (Some ''sub_1'')] sample_state)))))) =
   [sample_event ''event_xxx'' ''New'' (Some ''sub_1'')]"
proof -
  have h: "\<forall>d \<in> set [sample_draft ''New'' (Some ''sub_1'')]. subscription_draft ''sub_1'' d"
    by (simp add: subscription_draft_def sample_draft_def)
  have n: "map revive
     (fst (replaceSubscriptionEvents sample_ids ''sub_1''
               [sample_draft ''New'' (Some ''sub_1'')]
               (snd (replaceSubscriptionEvents sample_ids ''sub_1''
                      [sample_draft ''Old 1'' (Some ''sub_1''),
                       sample_draft ''Old 2'' (Some ''sub_1'')] sample_state)))) =
     [sample_event ''event_xxx'' ''New'' (Some ''sub_1'')]"
    by code_simp
  from replaceSubscriptionEvents_twice[OF h, of sample_ids
      "[sample_draft ''Old 1'' (Some ''sub_1''), sample_draft ''Old 2'' (Some ''sub_1'')]"
      sample_state]
  show ?thesis by (simp only: n)
qed

subsection \<open>Event block parser\<close>

lemma split_from_nonempty: "split_from cur sep s \<noteq> []"
  by (induction s arbitrary: cur) simp_all

lemma replace_pair_empty: "replace_pair a b r s = [] \<longleftrightarrow> s = []"
  by (induction a b r s rule: replace_pair.induct) simp_all

lemma unescapeValue_empty: "unescapeValue v = [] \<longleftrightarrow> v = []"
  by (simp add: unescapeValue_def replace_pair_empty)

text \<open>What a property line does to the title, the start and the link of a draft.\<close>

lemma title_set_property:
  "title (set_property (k # ks) v ev) =
     (if k = ''SUMMARY'' then Some (unescapeValue v) else title ev)"
  by (simp add: set_property_def)

lemma startDate_set_property:
  "startDate (set_property (k # ks) v ev) =
     (if k = ''DTSTART'' then Some (parseDate v (k # ks)) else startDate ev)"
  by (simp add: set_property_def)

lemma subscriptionUrl_set_property:
  "subscriptionUrl (set_property kp v ev) = subscriptionUrl ev"
  by (cases kp) (simp_all add: set_property_def)

lemma property_line_cases:
  obtains (none) "property_of line = None" "property_line line ev = ev"
  | (some) k ks v where "property_of line = Some (k, v)"
      "property_line line ev = set_property (k # ks) v ev"
proof (cases "indexOf line (CHR '':'')")
  case None
  then have "property_of line = None" "property_line line ev = ev"
    by (simp_all add: property_of_def property_line_def)
  then show ?thesis by (rule none)
next
  case (Some i)
  obtain k ks where s: "split (substring line 0 i) (CHR '';'') = k # ks"
    using split_from_nonempty[of "[]" "CHR '';''" "substring line 0 i"]
    by (cases "split (substring line 0 i) (CHR '';'')") (auto simp: split_def)
  from Some s have "property_of line = Some (k, substring_from line (i + 1))"
    "property_line line ev = set_property (k # ks) (substring_from line (i + 1)) ev"
    by (simp_all add: property_of_def property_line_def Let_def)
  then show ?thesis by (rule some)
qed

lemma title_property_line:
  "title (property_line line ev) =
     (case property_of line of
        None \<Rightarrow> title ev
      | Some (k, v) \<Rightarrow> if k = ''SUMMARY'' then Some (unescapeValue v) else title ev)"
  by (cases line ev rule: property_line_cases) (simp_all add: title_set_property)

lemma startDate_property_line:
  "startDate (property_line line ev) = None \<longleftrightarrow>
     startDate ev = None \<and>
     (case property_of line of None \<Rightarrow> True | Some (k, v) \<Rightarrow> k \<noteq> ''DTSTART'')"
  by (cases line ev rule: property_line_cases) (simp_all add: startDate_set_property)

lemma subscriptionUrl_property_line:
  "subscriptionUrl (property_line line ev) = subscriptionUrl ev"
  by (cases line ev rule: property_line_cases) (simp_all add: subscriptionUrl_set_property)

lemma values_of_snoc:
  "values_of key (body @ [line]) =
     values_of key body @
       (case property_of line of None \<Rightarrow> [] | Some (k, v) \<Rightarrow> if k = key then [v] else [])"
  by (simp add: values_of_def)

lemma title_lines:
  "title (foldl (\<lambda>ev line. property_line line ev) ev0 body) =
     (if values_of ''SUMMARY'' body = [] then title ev0
      else Some (unescapeValue (last (values_of ''SUMMARY'' body))))"
proof (induction body rule: rev_induct)
  case Nil
  show ?case by (simp add: values_of_def)
next
  case (snoc line body)
  show ?case
  proof (cases "property_of line")
    case None
    then show ?thesis using snoc by (simp add: title_property_line values_of_snoc)
  next
    case (Some p)
    obtain k v where "p = (k, v)" by (cases p)
    with Some show ?thesis using snoc by (simp add: title_property_line values_of_snoc)
  qed
qed

lemma startDate_lines:
  "startDate (foldl (\<lambda>ev line. property_line line ev) ev0 body) = None \<longleftrightarrow>
     startDate ev0 = None \<and> values_of ''DTSTART'' body = []"
proof (induction body rule: rev_induct)
  case Nil
  show ?case by (simp add: values_of_def)
next
  case (snoc line body)
  show ?case
  proof (cases "property_of line")
    case None
    then show ?thesis using snoc by (simp add: startDate_property_line values_of_snoc)
  next
    case (Some p)
    obtain k v where "p = (k, v)" by (cases p)
    with Some show ?thesis using snoc by (simp add: startDate_property_line values_of_snoc)
  qed
qed

lemma subscriptionUrl_lines:
  "subscriptionUrl (foldl (\<lambda>ev line. property_line line ev) ev0 body) = subscriptionUrl ev0"
  by (induction body rule: rev_induct) (simp_all add: subscriptionUrl_property_line)

text \<open>The steps of the state machine.\<close>

lemma process_line_begin:
  "process_line sid col st ''BEGIN:VEVENT'' =
     st\<lparr>inEvent := True, currentEvent := Some (new_draft sid col)\<rparr>"
  by (simp add: process_line_def)

lemma process_line_end:
  "process_line sid col \<lparr>events = es, currentEvent = Some cur, inEvent = b\<rparr> ''END:VEVENT'' =
     \<lparr>events = (if truthy (title cur) \<and> startDate cur \<noteq> None then es @ [cur] else es),
      currentEvent = None, inEvent = False\<rparr>"
  by (simp add: process_line_def)

lemma process_line_inside:
  "line \<noteq> ''BEGIN:VEVENT'' \<Longrightarrow> line \<noteq> ''END:VEVENT'' \<Longrightarrow>
   process_line sid col \<lparr>events = es, currentEvent = Some cur, inEvent = True\<rparr> line =
     \<lparr>events = es, currentEvent = Some (property_line line cur), inEvent = True\<rparr>"
  by (simp add: process_line_def)

lemma parse_lines_Nil: "parse_lines sid col st [] = st"
  by (simp add: parse_lines_def)

lemma parse_lines_Cons:
  "parse_lines sid col st (l # ls) = parse_lines sid col (process_line sid col st l) ls"
  by (simp add: parse_lines_def)

lemma parse_lines_append:
  "parse_lines sid col st (ls @ ms) = parse_lines sid col (parse_lines sid col st ls) ms"
  by (simp add: parse_lines_def)

lemma parse_lines_inside:
  "''BEGIN:VEVENT'' \<notin> set body \<Longrightarrow> ''END:VEVENT'' \<notin> set body \<Longrightarrow>
   parse_lines sid col \<lparr>events = es, currentEvent = Some cur, inEvent = True\<rparr> body =
     \<lparr>events = es,
      currentEvent = Some (foldl (\<lambda>ev line. property_line line ev) cur body),
      inEvent = True\<rparr>"
proof (induction body arbitrary: cur)
  case Nil
  show ?case by (simp add: parse_lines_Nil)
next
  case (Cons l body)
  from Cons.prems have l: "l \<noteq> ''BEGIN:VEVENT''" "l \<noteq> ''END:VEVENT''"
    and b: "''BEGIN:VEVENT'' \<notin> set body" "''END:VEVENT'' \<notin> set body" by auto
  show ?case
    by (simp only: parse_lines_Cons process_line_inside[OF l] Cons.IH[OF b] foldl_Cons)
qed

text \<open>The output only grows, and what a run adds does not depend on what was there.\<close>

lemma process_line_events_prefix:
  "process_line sid col (st\<lparr>events := es @ events st\<rparr>) line =
     (process_line sid col st line)\<lparr>events := es @ events (process_line sid col st line)\<rparr>"
  by (cases "currentEvent st") (auto simp: process_line_def)

lemma parse_lines_events_prefix:
  "parse_lines sid col (st\<lparr>events := es @ events st\<rparr>) ls =
     (parse_lines sid col st ls)\<lparr>events := es @ events (parse_lines sid col st ls)\<rparr>"
proof (induction ls arbitrary: st)
  case Nil
  show ?case by (simp add: parse_lines_Nil)
next
  case (Cons l ls)
  show ?case
    by (simp only: parse_lines_Cons process_line_events_prefix Cons.IH)
qed

lemma parse_lines_from_outside:
  "events (parse_lines sid col \<lparr>events = es, currentEvent = None, inEvent = False\<rparr> ls) =
     es @ events (parse_lines sid col initial_state ls)"
proof -
  have "\<lparr>events = es, currentEvent = None, inEvent = False\<rparr> =
          initial_state\<lparr>events := es @ events initial_state\<rparr>"
    by (simp add: initial_state_def)
  then show ?thesis by (simp only: parse_lines_events_prefix) simp
qed

lemma process_line_no_end:
  "line \<noteq> ''END:VEVENT'' \<Longrightarrow> events (process_line sid col st line) = events st"
  by (cases "currentEvent st") (simp_all add: process_line_def)

lemma parse_lines_no_end:
  "''END:VEVENT'' \<notin> set ls \<Longrightarrow> events (parse_lines sid col st ls) = events st"
proof (induction ls arbitrary: st)
  case Nil
  show ?case by (simp add: parse_lines_Nil)
next
  case (Cons l ls)
  then have "l \<noteq> ''END:VEVENT''" "''END:VEVENT'' \<notin> set ls" by auto
  then show ?case by (simp add: parse_lines_Cons Cons.IH process_line_no_end)
qed

text \<open>A whole block, from any state: its draft is emitted or dropped.\<close>

lemma parse_lines_block:
  assumes "''BEGIN:VEVENT'' \<notin> set body" "''END:VEVENT'' \<notin> set body"
  shows "parse_lines sid col st (''BEGIN:VEVENT'' # body @ [''END:VEVENT'']) =
           \<lparr>events = events st @ block_events sid col body,
            currentEvent = None, inEvent = False\<rparr>"
proof -
  let ?d = "block_draft sid col body"
  have b: "process_line sid col st ''BEGIN:VEVENT'' =
             \<lparr>events = events st, currentEvent = Some (new_draft sid col), inEvent = True\<rparr>"
    by (simp add: process_line_begin)
  have i: "parse_lines sid col
             \<lparr>events = events st, currentEvent = Some (new_draft sid col), inEvent = True\<rparr> body =
           \<lparr>events = events st, currentEvent = Some ?d, inEvent = True\<rparr>"
    unfolding block_draft_def using assms by (rule parse_lines_inside)
  have t: "truthy (title ?d) \<longleftrightarrow>
             values_of ''SUMMARY'' body \<noteq> [] \<and> last (values_of ''SUMMARY'' body) \<noteq> []"
    by (simp add: block_draft_def title_lines new_draft_def unescapeValue_empty)
  have s: "startDate ?d \<noteq> None \<longleftrightarrow> values_of ''DTSTART'' body \<noteq> []"
    by (simp add: block_draft_def startDate_lines new_draft_def)
  have e: "(if truthy (title ?d) \<and> startDate ?d \<noteq> None then events st @ [?d] else events st) =
           events st @ block_events sid col body"
    unfolding t s by (simp add: block_events_def)
  show ?thesis
    by (simp only: parse_lines_Cons parse_lines_append b i process_line_end parse_lines_Nil e)
qed

text \<open>
  Every draft the parser emits has a start date and carries the subscription
  identifier the parser was called with.
\<close>

lemma process_line_drafts:
  assumes "\<forall>d \<in> set (events st). subscription_draft sid d"
    and "\<forall>cur. currentEvent st = Some cur \<longrightarrow> subscriptionUrl cur = Some sid"
  shows "(\<forall>d \<in> set (events (process_line (Some sid) col st line)). subscription_draft sid d) \<and>
         (\<forall>cur. currentEvent (process_line (Some sid) col st line) = Some cur
                \<longrightarrow> subscriptionUrl cur = Some sid)"
proof (cases "currentEvent st")
  case None
  with assms show ?thesis by (simp add: process_line_def new_draft_def)
next
  case (Some cur)
  with assms(2) have "subscriptionUrl cur = Some sid" by simp
  with assms(1) Some show ?thesis
    by (auto simp: process_line_def new_draft_def subscription_draft_def
        subscriptionUrl_property_line)
qed

lemma parse_lines_drafts:
  "\<forall>d \<in> set (events st). subscription_draft sid d \<Longrightarrow>
   \<forall>cur. currentEvent st = Some cur \<longrightarrow> subscriptionUrl cur = Some sid \<Longrightarrow>
   \<forall>d \<in> set (events (parse_lines (Some sid) col st ls)). subscription_draft sid d"
proof (induction ls arbitrary: st)
  case Nil
  then show ?case by (simp add: parse_lines_Nil)
next
  case (Cons l ls)
  from process_line_drafts[OF Cons.prems, of col l] show ?case
    unfolding parse_lines_Cons by (intro Cons.IH) blast+
qed

lemma parseICalContent_drafts:
  "\<forall>d \<in> set (parseICalContent content (Some sid) col). subscription_draft sid d"
  unfolding parseICalContent_def
  by (rule parse_lines_drafts) (simp_all add: initial_state_def)

text \<open>
  C4, as the claim states it, fails when a block carries more than one \<open>SUMMARY\<close>:
  the last one counts, so a block with the lines \<open>SUMMARY:Exam\<close>, a \<open>DTSTART\<close> and an
  empty \<open>SUMMARY:\<close> carries a non-empty \<open>SUMMARY\<close> and a \<open>DTSTART\<close> and emits nothing.
\<close>

theorem duplicate_summary_drops_event:
  "values_of ''SUMMARY'' (unfold twice_summarised) = [''Exam'', []] \<and>
   values_of ''DTSTART'' (unfold twice_summarised) = [''20250615T090000Z''] \<and>
   parseICalContent twice_summarised None None = []"
  by code_simp

text \<open>
  C4, amended. A block of logical lines from \<open>BEGIN:VEVENT\<close> to the next \<open>END:VEVENT\<close>,
  with neither line in between, adds to the output of the parser exactly one event
  when its last \<open>SUMMARY\<close> line has a value that is not empty and it has a \<open>DTSTART\<close>
  line, and that event has a title (the unescaped value) and a start date; it adds
  nothing when it has no \<open>SUMMARY\<close> line, when the last one is empty or when it has no
  \<open>DTSTART\<close> line. The events before and after the block are those of the lines
  before and after it. A \<open>BEGIN:VEVENT\<close> with no \<open>END:VEVENT\<close> after it adds nothing.
\<close>

theorem event_block_emission:
  "(unfold content = pre @ ''BEGIN:VEVENT'' # body @ ''END:VEVENT'' # post \<and>
    ''BEGIN:VEVENT'' \<notin> set body \<and> ''END:VEVENT'' \<notin> set body \<longrightarrow>
      parseICalContent content sid col =
        events (parse_lines sid col initial_state pre) @ block_events sid col body @
        events (parse_lines sid col initial_state post)) \<and>
   (values_of ''SUMMARY'' body \<noteq> [] \<and> last (values_of ''SUMMARY'' body) \<noteq> [] \<and>
    values_of ''DTSTART'' body \<noteq> [] \<longrightarrow>
      block_events sid col body = [block_draft sid col body] \<and>
      title (block_draft sid col body) =
        Some (unescapeValue (last (values_of ''SUMMARY'' body))) \<and>
      truthy (title (block_draft sid col body)) \<and>
      startDate (block_draft sid col body) \<noteq> None) \<and>
   (values_of ''SUMMARY'' body = [] \<or> last (values_of ''SUMMARY'' body) = [] \<or>
    values_of ''DTSTART'' body = [] \<longrightarrow> block_events sid col body = []) \<and>
   (unfold content = pre @ ''BEGIN:VEVENT'' # rest \<and> ''END:VEVENT'' \<notin> set rest \<longrightarrow>
      parseICalContent content sid col = events (parse_lines sid col initial_state pre))"
proof (intro conjI impI)
  assume a: "unfold content = pre @ ''BEGIN:VEVENT'' # body @ ''END:VEVENT'' # post \<and>
    ''BEGIN:VEVENT'' \<notin> set body \<and> ''END:VEVENT'' \<notin> set body"
  then have u: "unfold content = pre @ (''BEGIN:VEVENT'' # body @ [''END:VEVENT'']) @ post"
    and b: "''BEGIN:VEVENT'' \<notin> set body" "''END:VEVENT'' \<notin> set body" by simp_all
  show "parseICalContent content sid col =
        events (parse_lines sid col initial_state pre) @ block_events sid col body @
        events (parse_lines sid col initial_state post)"
    unfolding parseICalContent_def u
    by (simp only: parse_lines_append parse_lines_block[OF b] parse_lines_from_outside
        append_assoc)
next
  assume a: "values_of ''SUMMARY'' body \<noteq> [] \<and> last (values_of ''SUMMARY'' body) \<noteq> [] \<and>
    values_of ''DTSTART'' body \<noteq> []"
  then show "block_events sid col body = [block_draft sid col body]"
    by (simp add: block_events_def)
  from a show t: "title (block_draft sid col body) =
        Some (unescapeValue (last (values_of ''SUMMARY'' body)))"
    by (simp add: block_draft_def title_lines)
  from a show "truthy (title (block_draft sid col body))"
    unfolding t by (simp add: unescapeValue_empty)
  from a show "startDate (block_draft sid col body) \<noteq> None"
    by (simp add: block_draft_def startDate_lines)
next
  assume "values_of ''SUMMARY'' body = [] \<or> last (values_of ''SUMMARY'' body) = [] \<or>
    values_of ''DTSTART'' body = []"
  then show "block_events sid col body = []"
    by (auto simp: block_events_def)
next
  assume a: "unfold content = pre @ ''BEGIN:VEVENT'' # rest \<and> ''END:VEVENT'' \<notin> set rest"
  then have u: "unfold content = pre @ ''BEGIN:VEVENT'' # rest"
    and r: "''END:VEVENT'' \<notin> set rest" by simp_all
  show "parseICalContent content sid col = events (parse_lines sid col initial_state pre)"
    unfolding parseICalContent_def u
    by (simp only: parse_lines_append parse_lines_Cons parse_lines_no_end[OF r]
        process_line_begin) simp
qed

theorem event_block_emission_witness:
  "unfold example_document =
     [''BEGIN:VCALENDAR''] @ ''BEGIN:VEVENT'' # example_block @ ''END:VEVENT'' # [''END:VCALENDAR''] \<and>
   values_of ''SUMMARY'' example_block = [''Midterm'' @ [BACKSLASH] @ '', Calc III''] \<and>
   values_of ''DTSTART'' example_block = [''20250522''] \<and>
   parseICalContent example_document None None = [block_draft None None example_block] \<and>
   title (block_draft None None example_block) = Some ''Midterm, Calc III''"
proof -
  have u: "unfold example_document =
     [''BEGIN:VCALENDAR''] @ ''BEGIN:VEVENT'' # example_block @ ''END:VEVENT'' # [''END:VCALENDAR'']"
    by code_simp
  have b: "''BEGIN:VEVENT'' \<notin> set example_block" "''END:VEVENT'' \<notin> set example_block"
    by (simp_all add: example_block_def)
  have s: "values_of ''SUMMARY'' example_block = [''Midterm'' @ [BACKSLASH] @ '', Calc III'']"
    by code_simp
  have d: "values_of ''DTSTART'' example_block = [''20250522'']"
    by code_simp
  have o: "events (parse_lines None None initial_state [''BEGIN:VCALENDAR'']) = []"
    "events (parse_lines None None initial_state [''END:VCALENDAR'']) = []"
    by (simp_all add: parse_lines_no_end initial_state_def)
  have v: "unescapeValue (''Midterm'' @ [BACKSLASH] @ '', Calc III'') = ''Midterm, Calc III''"
    by code_simp
  from event_block_emission[of example_document "[''BEGIN:VCALENDAR'']" example_block
      "[''END:VCALENDAR'']" None None undefined] u b s d
  have "parseICalContent example_document None None =
          [] @ block_events None None example_block @ []"
    and "block_events None None example_block = [block_draft None None example_block]"
    and "title (block_draft None None example_block) =
          Some (unescapeValue (''Midterm'' @ [BACKSLASH] @ '', Calc III''))"
    by (simp_all add: o)
  with u s d v show ?thesis by simp
qed

end
